theory Spec2Isabelle
  imports Main "HOL-Library.AList"
begin

section \<open>Strings, bytes and paths\<close>

text \<open>
  A Python \<open>bytes\<close> value is a list of 8-bit characters. A Python \<open>str\<close> is represented
  by its UTF-8 encoding, so \<open>str.encode()\<close> is the identity and \<open>bytes.decode('utf-8')\<close>
  is a validity check (a \<open>str\<close> holding a lone surrogate, which \<open>encode\<close> would reject,
  has no representation here). Non-ASCII text of the source (its messages) is written
  byte by byte.
\<close>

type_synonym bytes = string
type_synonym str = string

text \<open>A \<open>pathlib.Path\<close> below a directory: the directory and the file name.\<close>

type_synonym path = "str \<times> str"

definition path_str :: "path \<Rightarrow> str" where
  "path_str p = fst p @ ''/'' @ snd p"

text \<open>
  \<open>str.lower()\<close>: the ASCII letters are mapped, every other byte is kept. On the suffix
  tests of \<open>process_file\<close> this agrees with Python, since no non-ASCII character
  lower-cases to one of the characters of \<open>.pdf\<close> or \<open>.txt\<close>.
\<close>

definition lower_char :: "char \<Rightarrow> char" where
  "lower_char c =
     (let n = (of_char c :: nat) in if 65 \<le> n \<and> n \<le> 90 then char_of (n + 32) else c)"

definition lower :: "str \<Rightarrow> str" where
  "lower s = map lower_char s"

definition endswith :: "str \<Rightarrow> str \<Rightarrow> bool" where
  "endswith s suf = (length suf \<le> length s \<and> drop (length s - length suf) s = suf)"

text \<open>\<open>sep.join(parts)\<close>\<close>

fun join :: "str \<Rightarrow> str list \<Rightarrow> str" where
  "join sep [] = []"
| "join sep [x] = x"
| "join sep (x # y # ys) = x @ sep @ join sep (y # ys)"

section \<open>Exceptions\<close>

datatype exc_class =
  ValueError | TypeError | OSError | FileNotFoundError | JSONDecodeError
  | UnicodeDecodeError | ValidationError | Exception | LibraryError str

datatype exn = Exc exc_class str

text \<open>\<open>str(e)\<close>\<close>

fun str_exn :: "exn \<Rightarrow> str" where
  "str_exn (Exc c m) = m"

text \<open>
  The well-formed UTF-8 byte sequences (Unicode, table 3-7): what Python's strict
  \<open>utf-8\<close> codec accepts.
\<close>

definition cont :: "nat \<Rightarrow> bool" where
  "cont b = (128 \<le> b \<and> b \<le> 191)"

fun utf8_valid :: "nat list \<Rightarrow> bool" where
  "utf8_valid [] = True"
| "utf8_valid [b0] = (b0 \<le> 127)"
| "utf8_valid [b0, b1] =
     (if b0 \<le> 127 then utf8_valid [b1] else 194 \<le> b0 \<and> b0 \<le> 223 \<and> cont b1)"
| "utf8_valid [b0, b1, b2] =
     (if b0 \<le> 127 then utf8_valid [b1, b2]
      else if 194 \<le> b0 \<and> b0 \<le> 223 then cont b1 \<and> utf8_valid [b2]
      else 224 \<le> b0 \<and> b0 \<le> 239 \<and> cont b2
        \<and> (if b0 = 224 then 160 \<le> b1 \<and> b1 \<le> 191
           else if b0 = 237 then 128 \<le> b1 \<and> b1 \<le> 159 else cont b1))"
| "utf8_valid (b0 # b1 # b2 # b3 # r) =
     (if b0 \<le> 127 then utf8_valid (b1 # b2 # b3 # r)
      else if 194 \<le> b0 \<and> b0 \<le> 223 then cont b1 \<and> utf8_valid (b2 # b3 # r)
      else if 224 \<le> b0 \<and> b0 \<le> 239 then
        cont b2 \<and> utf8_valid (b3 # r)
        \<and> (if b0 = 224 then 160 \<le> b1 \<and> b1 \<le> 191
           else if b0 = 237 then 128 \<le> b1 \<and> b1 \<le> 159 else cont b1)
      else 240 \<le> b0 \<and> b0 \<le> 244 \<and> cont b2 \<and> cont b3 \<and> utf8_valid r
        \<and> (if b0 = 240 then 144 \<le> b1 \<and> b1 \<le> 191
           else if b0 = 244 then 128 \<le> b1 \<and> b1 \<le> 143 else cont b1))"

text \<open>\<open>file_content.decode('utf-8')\<close>\<close>

definition decode_utf8 :: "bytes \<Rightarrow> exn + str" where
  "decode_utf8 bs =
     (if utf8_valid (map of_char bs) then Inr bs
      else Inl (Exc UnicodeDecodeError ''utf-8 codec cannot decode the bytes''))"

section \<open>Documents and their JSON form\<close>

text \<open>
  The values \<open>json.load\<close> returns and \<open>json.dump\<close> accepts (floats left out: the
  loader's metadata holds strings and page numbers). A dictionary is an association list
  in insertion order.
\<close>

datatype json =
  JNull | JBool bool | JInt int | JStr str | JArr "json list" | JObj "(str \<times> json) list"

text \<open>
  \<open>langchain_core.documents.Document\<close>: the text of a chunk, its metadata dictionary
  and the optional identifier.
\<close>

record document =
  page_content :: str
  metadata :: "(str \<times> json) list"
  doc_id :: "str option"

text \<open>\<open>doc.dict()\<close>\<close>

definition dict :: "document \<Rightarrow> json" where
  "dict d = JObj
     [(''id'', (case doc_id d of None \<Rightarrow> JNull | Some i \<Rightarrow> JStr i)),
      (''metadata'', JObj (metadata d)),
      (''page_content'', JStr (page_content d)),
      (''type'', JStr ''Document'')]"

text \<open>\<open>str(n)\<close> for an integer: its decimal digits.\<close>

definition digit_char :: "nat \<Rightarrow> char" where
  "digit_char d = char_of (of_char CHR ''0'' + d)"

fun str_nat :: "nat \<Rightarrow> str" where
  "str_nat n =
     (if 10 \<le> n then str_nat (n div 10) @ [digit_char (n mod 10)] else [digit_char n])"

definition str_int :: "int \<Rightarrow> str" where
  "str_int i = (if i < 0 then ''-'' @ str_nat (nat (- i)) else str_nat (nat i))"

text \<open>
  \<open>Document(**doc)\<close>: \<open>doc\<close> must be a mapping. Its keys become keyword arguments of
  \<open>Document.__init__(self, page_content, **kwargs)\<close>, so a key \<open>self\<close> and a missing
  \<open>page_content\<close> are a \<open>TypeError\<close> of the call. The fields are then validated:
  \<open>page_content\<close> a string, \<open>metadata\<close> a dictionary (default empty), \<open>id\<close> a string
  or \<open>None\<close>, a number being turned into its string (\<open>coerce_numbers_to_str\<close>, which
  leaves booleans out), \<open>type\<close> the literal \<open>Document\<close>; other keys are ignored.
\<close>

definition Document :: "json \<Rightarrow> exn + document" where
  "Document doc =
     (case doc of
        JObj kv \<Rightarrow>
          (if map_of kv ''self'' \<noteq> None
           then Inl (Exc TypeError ''got multiple values for argument self'')
           else
             (case map_of kv ''page_content'' of
                Some (JStr pc) \<Rightarrow>
                  (case (case map_of kv ''metadata'' of
                           None \<Rightarrow> Some []
                         | Some (JObj md) \<Rightarrow> Some md
                         | Some _ \<Rightarrow> None) of
                     None \<Rightarrow> Inl (Exc ValidationError ''metadata'')
                   | Some md \<Rightarrow>
                       (case (case map_of kv ''id'' of
                                None \<Rightarrow> Some None
                              | Some JNull \<Rightarrow> Some None
                              | Some (JStr i) \<Rightarrow> Some (Some i)
                              | Some (JInt i) \<Rightarrow> Some (Some (str_int i))
                              | Some _ \<Rightarrow> None) of
                          None \<Rightarrow> Inl (Exc ValidationError ''id'')
                        | Some i \<Rightarrow>
                            (if map_of kv ''type'' \<in> {None, Some (JStr ''Document'')}
                             then Inr \<lparr>page_content = pc, metadata = md, doc_id = i\<rparr>
                             else Inl (Exc ValidationError ''type''))))
              | Some _ \<Rightarrow> Inl (Exc ValidationError ''page_content'')
              | None \<Rightarrow> Inl (Exc TypeError ''missing argument page_content'')))
      | _ \<Rightarrow> Inl (Exc TypeError ''argument after ** must be a mapping''))"

text \<open>\<open>[Document(**doc) for doc in data]\<close> over a list: the first failure is raised.\<close>

fun build_documents :: "json list \<Rightarrow> exn + document list" where
  "build_documents [] = Inr []"
| "build_documents (doc # rest) =
     (case Document doc of
        Inl e \<Rightarrow> Inl e
      | Inr d \<Rightarrow> (case build_documents rest of Inl e \<Rightarrow> Inl e | Inr ds \<Rightarrow> Inr (d # ds)))"

text \<open>
  The comprehension over whatever \<open>json.load\<close> returned: a list is iterated, a dictionary
  yields its keys and a string its characters (each one a string, so \<open>Document\<close> fails
  unless there is none), anything else is not iterable.
\<close>

definition documents_of_data :: "json \<Rightarrow> exn + document list" where
  "documents_of_data data =
     (case data of
        JArr xs \<Rightarrow> build_documents xs
      | JObj kv \<Rightarrow> build_documents (map (\<lambda>(k, v). JStr k) kv)
      | JStr s \<Rightarrow> build_documents (map (\<lambda>c. JStr [c]) s)
      | _ \<Rightarrow> Inl (Exc TypeError ''object is not iterable''))"

section \<open>Messages\<close>

text \<open>The message of the source meaning: cache load failed.\<close>

definition msg_cache_load_failed :: str where
  "msg_cache_load_failed =
    [CHR 0xE4, CHR 0xBB, CHR 0x8E, CHR 0xE7, CHR 0xBC, CHR 0x93, CHR 0xE5, CHR 0xAD,
     CHR 0x98, CHR 0xE5, CHR 0x8A, CHR 0xA0, CHR 0xE8, CHR 0xBD, CHR 0xBD, CHR 0xE5,
     CHR 0xA4, CHR 0xB1, CHR 0xE8, CHR 0xB4, CHR 0xA5, CHR 0x3A, CHR 0x20]"

text \<open>The message of the source meaning: cache save failed.\<close>

definition msg_cache_save_failed :: str where
  "msg_cache_save_failed =
    [CHR 0xE4, CHR 0xBF, CHR 0x9D, CHR 0xE5, CHR 0xAD, CHR 0x98, CHR 0xE5, CHR 0x88,
     CHR 0xB0, CHR 0xE7, CHR 0xBC, CHR 0x93, CHR 0xE5, CHR 0xAD, CHR 0x98, CHR 0xE5,
     CHR 0xA4, CHR 0xB1, CHR 0xE8, CHR 0xB4, CHR 0xA5, CHR 0x3A, CHR 0x20]"

text \<open>The message of the source meaning: temp file cleanup failed.\<close>

definition msg_temp_cleanup_failed :: str where
  "msg_temp_cleanup_failed =
    [CHR 0xE6, CHR 0xB8, CHR 0x85, CHR 0xE7, CHR 0x90, CHR 0x86, CHR 0xE4, CHR 0xB8,
     CHR 0xB4, CHR 0xE6, CHR 0x97, CHR 0xB6, CHR 0xE6, CHR 0x96, CHR 0x87, CHR 0xE4,
     CHR 0xBB, CHR 0xB6, CHR 0xE5, CHR 0xA4, CHR 0xB1, CHR 0xE8, CHR 0xB4, CHR 0xA5,
     CHR 0x20]"

text \<open>The message of the source meaning: file loaded from cache.\<close>

definition msg_loaded_from_cache :: str where
  "msg_loaded_from_cache =
    [CHR 0xE4, CHR 0xBB, CHR 0x8E, CHR 0xE7, CHR 0xBC, CHR 0x93, CHR 0xE5, CHR 0xAD,
     CHR 0x98, CHR 0xE5, CHR 0x8A, CHR 0xA0, CHR 0xE8, CHR 0xBD, CHR 0xBD, CHR 0xE6,
     CHR 0x96, CHR 0x87, CHR 0xE4, CHR 0xBB, CHR 0xB6, CHR 0x3A, CHR 0x20]"

text \<open>The message of the source meaning: processing file.\<close>

definition msg_processing :: str where
  "msg_processing =
    [CHR 0xE5, CHR 0xA4, CHR 0x84, CHR 0xE7, CHR 0x90, CHR 0x86, CHR 0xE6, CHR 0x96,
     CHR 0x87, CHR 0xE4, CHR 0xBB, CHR 0xB6, CHR 0x3A, CHR 0x20]"

text \<open>The message of the source meaning: processing the PDF file failed.\<close>

definition msg_pdf_failed :: str where
  "msg_pdf_failed =
    [CHR 0xE5, CHR 0xA4, CHR 0x84, CHR 0xE7, CHR 0x90, CHR 0x86, CHR 0x50, CHR 0x44,
     CHR 0x46, CHR 0xE6, CHR 0x96, CHR 0x87, CHR 0xE4, CHR 0xBB, CHR 0xB6, CHR 0xE5,
     CHR 0xA4, CHR 0xB1, CHR 0xE8, CHR 0xB4, CHR 0xA5, CHR 0x3A, CHR 0x20]"

text \<open>The message of the source meaning: cache cleared.\<close>

definition msg_cache_cleared :: str where
  "msg_cache_cleared =
    [CHR 0xE7, CHR 0xBC, CHR 0x93, CHR 0xE5, CHR 0xAD, CHR 0x98, CHR 0xE5, CHR 0xB7,
     CHR 0xB2, CHR 0xE6, CHR 0xB8, CHR 0x85, CHR 0xE9, CHR 0x99, CHR 0xA4]"

text \<open>The message of the source meaning: clearing the cache failed.\<close>

definition msg_clear_cache_failed :: str where
  "msg_clear_cache_failed =
    [CHR 0xE6, CHR 0xB8, CHR 0x85, CHR 0xE9, CHR 0x99, CHR 0xA4, CHR 0xE7, CHR 0xBC,
     CHR 0x93, CHR 0xE5, CHR 0xAD, CHR 0x98, CHR 0xE5, CHR 0xA4, CHR 0xB1, CHR 0xE8,
     CHR 0xB4, CHR 0xA5, CHR 0x3A, CHR 0x20]"

text \<open>The message of the source meaning: temp directory cleaned.\<close>

definition msg_temp_dir_cleaned :: str where
  "msg_temp_dir_cleaned =
    [CHR 0xE5, CHR 0xB7, CHR 0xB2, CHR 0xE6, CHR 0xB8, CHR 0x85, CHR 0xE7, CHR 0x90,
     CHR 0x86, CHR 0xE4, CHR 0xB8, CHR 0xB4, CHR 0xE6, CHR 0x97, CHR 0xB6, CHR 0xE7,
     CHR 0x9B, CHR 0xAE, CHR 0xE5, CHR 0xBD, CHR 0x95, CHR 0x3A, CHR 0x20]"

text \<open>The message of the source meaning: cleaning temp files failed.\<close>

definition msg_clear_temp_failed :: str where
  "msg_clear_temp_failed =
    [CHR 0xE6, CHR 0xB8, CHR 0x85, CHR 0xE7, CHR 0x90, CHR 0x86, CHR 0xE4, CHR 0xB8,
     CHR 0xB4, CHR 0xE6, CHR 0x97, CHR 0xB6, CHR 0xE6, CHR 0x96, CHR 0x87, CHR 0xE4,
     CHR 0xBB, CHR 0xB6, CHR 0xE5, CHR 0xA4, CHR 0xB1, CHR 0xE8, CHR 0xB4, CHR 0xA5,
     CHR 0x3A, CHR 0x20]"

text \<open>The message of the source meaning: processing the file failed.\<close>

definition msg_process_failed :: str where
  "msg_process_failed =
    [CHR 0xE5, CHR 0xA4, CHR 0x84, CHR 0xE7, CHR 0x90, CHR 0x86, CHR 0xE6, CHR 0x96,
     CHR 0x87, CHR 0xE4, CHR 0xBB, CHR 0xB6, CHR 0xE5, CHR 0xA4, CHR 0xB1, CHR 0xE8,
     CHR 0xB4, CHR 0xA5, CHR 0x3A, CHR 0x20]"

text \<open>The message of the source meaning: argument error: a valid file object, or file content and file name, is required.\<close>

definition msg_bad_args :: str where
  "msg_bad_args =
    [CHR 0xE5, CHR 0x8F, CHR 0x82, CHR 0xE6, CHR 0x95, CHR 0xB0, CHR 0xE9, CHR 0x94,
     CHR 0x99, CHR 0xE8, CHR 0xAF, CHR 0xAF, CHR 0xEF, CHR 0xBC, CHR 0x9A, CHR 0xE9,
     CHR 0x9C, CHR 0x80, CHR 0xE8, CHR 0xA6, CHR 0x81, CHR 0xE6, CHR 0x8F, CHR 0x90,
     CHR 0xE4, CHR 0xBE, CHR 0x9B, CHR 0xE6, CHR 0x9C, CHR 0x89, CHR 0xE6, CHR 0x95,
     CHR 0x88, CHR 0xE7, CHR 0x9A, CHR 0x84, CHR 0xE6, CHR 0x96, CHR 0x87, CHR 0xE4,
     CHR 0xBB, CHR 0xB6, CHR 0xE5, CHR 0xAF, CHR 0xB9, CHR 0xE8, CHR 0xB1, CHR 0xA1,
     CHR 0xE6, CHR 0x88, CHR 0x96, CHR 0xE6, CHR 0x96, CHR 0x87, CHR 0xE4, CHR 0xBB,
     CHR 0xB6, CHR 0xE5, CHR 0x86, CHR 0x85, CHR 0xE5, CHR 0xAE, CHR 0xB9, CHR 0xE5,
     CHR 0x92, CHR 0x8C, CHR 0xE6, CHR 0x96, CHR 0x87, CHR 0xE4, CHR 0xBB, CHR 0xB6,
     CHR 0xE5, CHR 0x90, CHR 0x8D]"

text \<open>The message of the source meaning: unsupported file type.\<close>

definition msg_unsupported :: str where
  "msg_unsupported =
    [CHR 0xE4, CHR 0xB8, CHR 0x8D, CHR 0xE6, CHR 0x94, CHR 0xAF, CHR 0xE6, CHR 0x8C,
     CHR 0x81, CHR 0xE7, CHR 0x9A, CHR 0x84, CHR 0xE6, CHR 0x96, CHR 0x87, CHR 0xE4,
     CHR 0xBB, CHR 0xB6, CHR 0xE7, CHR 0xB1, CHR 0xBB, CHR 0xE5, CHR 0x9E, CHR 0x8B,
     CHR 0x3A, CHR 0x20]"

section \<open>The world outside the program\<close>

text \<open>
  What a file holds. The JSON text format is not modelled: \<open>JsonText v\<close> is a file whose
  text \<open>json.load\<close> parses to \<open>v\<close>, and \<open>json.dump\<close> of \<open>v\<close> writes such a file.
  \<open>Binary bs\<close> is a file written in binary mode (the scratch copies of the uploads); it
  is not read as JSON anywhere else than at a cache path, where it stands for text that
  is not JSON. \<open>Truncated\<close> is what a write that failed half way leaves behind.
\<close>

datatype content = Binary bytes | JsonText json | Truncated

text \<open>
  How opening a file for writing and writing it goes: it works, \<open>open\<close> raises (the file
  is untouched), or the write raises after \<open>open\<close> has created or truncated the file.
\<close>

datatype wfault = WriteOk | OpenFails exn | FailsMidway exn

text \<open>
  How listing a directory goes: it works; it fails with an error that \<open>Path.glob\<close>
  swallows, yielding nothing (\<open>PermissionError\<close>; every \<open>OSError\<close> from Python 3.12 on);
  or it fails with an error that \<open>Path.glob\<close> lets through. \<open>Path.iterdir\<close> raises
  either.
\<close>

datatype lfault = ListOk | ListSwallowed exn | ListRaises exn

datatype level = INFO | WARNING | ERROR

datatype io_event = IoExists path | IoRead path | IoWrite path | IoUnlink path | IoGlob str

text \<open>
  The state the program works on: the files on disk (in directory order), which
  operations of the file system fail, how many identifiers \<open>uuid.uuid4()\<close> has handed
  out, how often the PDF parser was invoked, the records the module's logger received
  (the logger is configured at level \<open>INFO\<close>, so \<open>logger.debug\<close> emits nothing and is left
  out) and the file system operations performed.
\<close>

record world =
  files :: "(path \<times> content) list"
  read_fault :: "path \<Rightarrow> exn option"
  write_fault :: "path \<Rightarrow> wfault"
  unlink_fault :: "path \<Rightarrow> exn option"
  list_fault :: "str \<Rightarrow> lfault"
  uuid_drawn :: nat
  parser_calls :: nat
  log :: "(level \<times> str) list"
  io_trace :: "io_event list"

text \<open>
  The libraries the module calls, as parameters: \<open>hashlib.md5(...).hexdigest()\<close>, the
  hexadecimal form of the \<open>n\<close>-th \<open>uuid.uuid4()\<close>, \<open>PyPDFLoader(path).load()\<close> on the bytes
  of the file at \<open>path\<close>, and \<open>RecursiveCharacterTextSplitter.split_documents\<close> with the
  chunk size, overlap and separators of \<open>config.settings\<close>.
\<close>

record env =
  md5_hexdigest :: "bytes \<Rightarrow> str"
  uuid4_hex :: "nat \<Rightarrow> str"
  pdf_load :: "str \<Rightarrow> bytes \<Rightarrow> exn + document list"
  split_documents :: "document list \<Rightarrow> exn + document list"

definition log_msg :: "level \<Rightarrow> str \<Rightarrow> world \<Rightarrow> world" where
  "log_msg lv m w = w\<lparr>log := log w @ [(lv, m)]\<rparr>"

definition trace :: "io_event \<Rightarrow> world \<Rightarrow> world" where
  "trace ev w = w\<lparr>io_trace := io_trace w @ [ev]\<rparr>"

text \<open>\<open>path.exists()\<close>\<close>

definition path_exists :: "path \<Rightarrow> world \<Rightarrow> bool \<times> world" where
  "path_exists p w = (map_of (files w) p \<noteq> None, trace (IoExists p) w)"

text \<open>\<open>open(p, 'w' or 'wb')\<close> followed by writing \<open>c\<close> and closing.\<close>

definition write_file :: "path \<Rightarrow> content \<Rightarrow> world \<Rightarrow> (exn + unit) \<times> world" where
  "write_file p c w =
     (let w1 = trace (IoWrite p) w in
      case write_fault w p of
        WriteOk \<Rightarrow> (Inr (), w1\<lparr>files := AList.update p c (files w1)\<rparr>)
      | OpenFails e \<Rightarrow> (Inl e, w1)
      | FailsMidway e \<Rightarrow> (Inl e, w1\<lparr>files := AList.update p Truncated (files w1)\<rparr>))"

text \<open>\<open>open(p, 'r')\<close> followed by \<open>json.load\<close>.\<close>

definition read_json :: "path \<Rightarrow> world \<Rightarrow> (exn + json) \<times> world" where
  "read_json p w =
     (let w1 = trace (IoRead p) w in
      case read_fault w p of
        Some e \<Rightarrow> (Inl e, w1)
      | None \<Rightarrow>
          (case map_of (files w) p of
             Some (JsonText v) \<Rightarrow> (Inr v, w1)
           | Some _ \<Rightarrow> (Inl (Exc JSONDecodeError ''Expecting value''), w1)
           | None \<Rightarrow> (Inl (Exc FileNotFoundError ''No such file or directory''), w1)))"

text \<open>\<open>os.unlink(p)\<close>, \<open>p.unlink()\<close>\<close>

definition unlink :: "path \<Rightarrow> world \<Rightarrow> (exn + unit) \<times> world" where
  "unlink p w =
     (let w1 = trace (IoUnlink p) w in
      case unlink_fault w p of
        Some e \<Rightarrow> (Inl e, w1)
      | None \<Rightarrow>
          (if map_of (files w) p = None
           then (Inl (Exc FileNotFoundError ''No such file or directory''), w1)
           else (Inr (), w1\<lparr>files := AList.delete p (files w1)\<rparr>)))"

text \<open>
  The entries of directory \<open>d\<close> whose name ends in \<open>suffix\<close>, in directory order.
\<close>

definition listing :: "str \<Rightarrow> str \<Rightarrow> world \<Rightarrow> path list" where
  "listing d suffix w =
     remdups (filter (\<lambda>p. fst p = d \<and> endswith (snd p) suffix) (map fst (files w)))"

text \<open>
  \<open>directory.glob("*" + suffix)\<close>, consumed by a \<open>for\<close> loop: the directory is scanned
  once, before the first entry is handed out.
\<close>

definition glob :: "str \<Rightarrow> str \<Rightarrow> world \<Rightarrow> (exn + path list) \<times> world" where
  "glob d suffix w =
     (case list_fault w d of
        ListOk \<Rightarrow> Inr (listing d suffix w)
      | ListSwallowed e \<Rightarrow> Inr []
      | ListRaises e \<Rightarrow> Inl e,
      trace (IoGlob d) w)"

text \<open>\<open>directory.iterdir()\<close>, consumed by a \<open>for\<close> loop.\<close>

definition iterdir :: "str \<Rightarrow> world \<Rightarrow> (exn + path list) \<times> world" where
  "iterdir d w =
     (case list_fault w d of
        ListOk \<Rightarrow> Inr (listing d [] w)
      | ListSwallowed e \<Rightarrow> Inl e
      | ListRaises e \<Rightarrow> Inl e,
      trace (IoGlob d) w)"

text \<open>
  \<open>PyPDFLoader(str(p)).load()\<close>: the parser is invoked, reads the file at \<open>p\<close> and
  returns its pages or raises.
\<close>

definition loader_load :: "env \<Rightarrow> path \<Rightarrow> world \<Rightarrow> (exn + document list) \<times> world" where
  "loader_load E p w =
     (let w1 = (trace (IoRead p) w)\<lparr>parser_calls := Suc (parser_calls w)\<rparr> in
      case read_fault w p of
        Some e \<Rightarrow> (Inl e, w1)
      | None \<Rightarrow>
          (case map_of (files w) p of
             Some (Binary bs) \<Rightarrow> (pdf_load E (path_str p) bs, w1)
           | Some _ \<Rightarrow> (Inl (Exc (LibraryError ''PdfReadError'') ''not a PDF file''), w1)
           | None \<Rightarrow> (Inl (Exc ValueError ''File path is not a valid file''), w1)))"

section \<open>The decorators\<close>

text \<open>
  Modelled from the spec: \<open>utils/decorators.py\<close> (\<open>error_handler\<close>, \<open>log_execution\<close>) is
  not among the sources. The spec describes the decorators as cross-cutting logging and
  error wrapping and has invalid-input and parse errors reach the caller, so both pass
  the result and the exception of the decorated method through.
\<close>

definition error_handler :: "'a \<Rightarrow> 'a" where
  "error_handler r = r"

definition log_execution :: "'a \<Rightarrow> 'a" where
  "log_execution r = r"

section \<open>DocumentProcessor\<close>

text \<open>
  The attributes \<open>__init__\<close> sets. The splitter it builds is \<open>split_documents\<close> of the
  environment.
\<close>

record processor =
  cache_dir :: str
  temp_dir :: str
  max_workers :: int

definition init :: "str \<Rightarrow> int \<Rightarrow> processor" where
  "init cd mw = \<lparr>cache_dir = cd, temp_dir = ''temp'', max_workers = mw\<rparr>"

definition get_cache_path :: "env \<Rightarrow> processor \<Rightarrow> bytes \<Rightarrow> str \<Rightarrow> path" where
  "get_cache_path E self file_content file_name =
     (let cache_key = md5_hexdigest E (file_content @ file_name)
      in (cache_dir self, cache_key @ ''.json''))"

definition load_from_cache :: "path \<Rightarrow> world \<Rightarrow> document list option \<times> world" where
  "load_from_cache cache_path w =
     (case path_exists cache_path w of
        (found, w1) \<Rightarrow>
          (if found then
             (case read_json cache_path w1 of
                (Inl e, w2) \<Rightarrow>
                  (None, log_msg WARNING (msg_cache_load_failed @ str_exn e) w2)
              | (Inr data, w2) \<Rightarrow>
                  (case documents_of_data data of
                     Inl e \<Rightarrow>
                       (None, log_msg WARNING (msg_cache_load_failed @ str_exn e) w2)
                   | Inr docs \<Rightarrow> (Some docs, w2)))
           else (None, w1)))"

definition save_to_cache :: "path \<Rightarrow> document list \<Rightarrow> world \<Rightarrow> world" where
  "save_to_cache cache_path documents w =
     (let docs_data = JArr (map dict documents) in
      case write_file cache_path (JsonText docs_data) w of
        (Inl e, w1) \<Rightarrow> log_msg WARNING (msg_cache_save_failed @ str_exn e) w1
      | (Inr u, w1) \<Rightarrow> w1)"

text \<open>
  The path \<open>_create_temp_file\<close> picks: \<open>temp_<uuid4 hex><suffix>\<close> in the scratch
  directory.
\<close>

definition next_temp_path :: "env \<Rightarrow> processor \<Rightarrow> str \<Rightarrow> world \<Rightarrow> path" where
  "next_temp_path E self suffix w =
     (let temp_filename = ''temp_'' @ uuid4_hex E (uuid_drawn w) @ suffix
      in (temp_dir self, temp_filename))"

definition create_temp_file ::
  "env \<Rightarrow> processor \<Rightarrow> bytes \<Rightarrow> str \<Rightarrow> world \<Rightarrow> (exn + path) \<times> world" where
  "create_temp_file E self file_content suffix w =
     (let temp_path = next_temp_path E self suffix w;
          w1 = w\<lparr>uuid_drawn := Suc (uuid_drawn w)\<rparr> in
      case write_file temp_path (Binary file_content) w1 of
        (Inl e, w2) \<Rightarrow> (Inl e, w2)
      | (Inr u, w2) \<Rightarrow> (Inr temp_path, w2))"

definition cleanup_temp_file :: "path \<Rightarrow> world \<Rightarrow> world" where
  "cleanup_temp_file temp_path w =
     (case path_exists temp_path w of
        (found, w1) \<Rightarrow>
          (if found then
             (case unlink temp_path w1 of
                (Inl e, w2) \<Rightarrow>
                  log_msg WARNING
                    (msg_temp_cleanup_failed @ path_str temp_path @ '': '' @ str_exn e) w2
              | (Inr u, w2) \<Rightarrow> w2)
           else w1))"

text \<open>
  The \<open>try\<close> block of \<open>_process_pdf\<close> once the scratch file exists: load, split, and save
  to the cache when the split is not empty.
\<close>

definition parse_and_split ::
  "env \<Rightarrow> path \<Rightarrow> path \<Rightarrow> world \<Rightarrow> (exn + document list) \<times> world" where
  "parse_and_split E cache_path temp_path w =
     (case loader_load E temp_path w of
        (Inl e, w1) \<Rightarrow> (Inl e, w1)
      | (Inr documents, w1) \<Rightarrow>
          (case split_documents E documents of
             Inl e \<Rightarrow> (Inl e, w1)
           | Inr split_docs \<Rightarrow>
               (Inr split_docs,
                if split_docs \<noteq> [] then save_to_cache cache_path split_docs w1 else w1)))"

text \<open>
  \<open>_process_pdf\<close>. When \<open>_create_temp_file\<close> raises, \<open>temp_path\<close> is still \<open>None\<close> and the
  \<open>finally\<close> block cleans nothing; otherwise the \<open>except\<close> block logs and re-raises and
  the \<open>finally\<close> block calls \<open>_cleanup_temp_file\<close>.
\<close>

definition process_pdf ::
  "env \<Rightarrow> processor \<Rightarrow> bytes \<Rightarrow> str \<Rightarrow> world \<Rightarrow> (exn + document list) \<times> world" where
  "process_pdf E self file_content file_name w =
     error_handler (log_execution
       (let cache_path = get_cache_path E self file_content file_name in
        case load_from_cache cache_path w of
          (Some cached_docs, w1) \<Rightarrow>
            (Inr cached_docs, log_msg INFO (msg_loaded_from_cache @ file_name) w1)
        | (None, w1) \<Rightarrow>
            (case create_temp_file E self file_content ''.pdf''
                    (log_msg INFO (msg_processing @ file_name) w1) of
               (Inl e, w2) \<Rightarrow> (Inl e, log_msg ERROR (msg_pdf_failed @ str_exn e) w2)
             | (Inr temp_path, w2) \<Rightarrow>
                 (case parse_and_split E cache_path temp_path w2 of
                    (Inl e, w3) \<Rightarrow>
                      (Inl e,
                       cleanup_temp_file temp_path
                         (log_msg ERROR (msg_pdf_failed @ str_exn e) w3))
                  | (Inr split_docs, w3) \<Rightarrow>
                      (Inr split_docs, cleanup_temp_file temp_path w3)))))"

text \<open>The loop of \<open>clear_cache\<close> and \<open>clear_temp_files\<close>: the first failure ends it.\<close>

fun unlink_all :: "path list \<Rightarrow> world \<Rightarrow> (exn + unit) \<times> world" where
  "unlink_all [] w = (Inr (), w)"
| "unlink_all (p # ps) w =
     (case unlink p w of
        (Inl e, w1) \<Rightarrow> (Inl e, w1)
      | (Inr u, w1) \<Rightarrow> unlink_all ps w1)"

definition clear_cache :: "processor \<Rightarrow> world \<Rightarrow> (exn + unit) \<times> world" where
  "clear_cache self w =
     (case (case glob (cache_dir self) ''.json'' w of
              (Inl e, w1) \<Rightarrow> (Inl e, w1)
            | (Inr fs, w1) \<Rightarrow> unlink_all fs w1) of
        (Inl e, w2) \<Rightarrow> (Inl e, log_msg ERROR (msg_clear_cache_failed @ str_exn e) w2)
      | (Inr u, w2) \<Rightarrow> (Inr (), log_msg INFO msg_cache_cleared w2))"

text \<open>
  \<open>clear_temp_files\<close>: every entry of the scratch directory is a file here, and the
  directory exists once \<open>__init__\<close> has run.
\<close>

definition clear_temp_files :: "processor \<Rightarrow> world \<Rightarrow> (exn + unit) \<times> world" where
  "clear_temp_files self w =
     (case (case iterdir (temp_dir self) w of
              (Inl e, w1) \<Rightarrow> (Inl e, w1)
            | (Inr fs, w1) \<Rightarrow> unlink_all fs w1) of
        (Inl e, w2) \<Rightarrow> (Inl e, log_msg ERROR (msg_clear_temp_failed @ str_exn e) w2)
      | (Inr u, w2) \<Rightarrow>
          (Inr (), log_msg INFO (msg_temp_dir_cleaned @ temp_dir self) w2))"

text \<open>
  The first argument of \<open>process_file\<close>: an object with \<open>getvalue\<close> and \<open>name\<close> (a
  Streamlit upload), a \<open>bytes\<close> object, or anything else.
\<close>

datatype upload = UploadedFile bytes str | RawBytes bytes | OtherObject

datatype processed = Text str | Chunks "document list"

text \<open>The dispatch on the file type, inside the \<open>try\<close> of \<open>process_file\<close>.\<close>

definition dispatch ::
  "env \<Rightarrow> processor \<Rightarrow> bool \<Rightarrow> bytes \<Rightarrow> str \<Rightarrow> world \<Rightarrow> (exn + processed) \<times> world" where
  "dispatch E self has_getvalue file_content file_name w =
     (if endswith (lower file_name) ''.pdf'' then
        (case process_pdf E self file_content file_name w of
           (Inl e, w1) \<Rightarrow> (Inl e, w1)
         | (Inr docs, w1) \<Rightarrow>
             (if has_getvalue
              then (Inr (Text (join [CHR 0x0A, CHR 0x0A] (map page_content docs))), w1)
              else (Inr (Chunks docs), w1)))
      else if endswith (lower file_name) ''.txt'' then
        (case decode_utf8 file_content of
           Inl e \<Rightarrow> (Inl e, w)
         | Inr s \<Rightarrow> (Inr (Text s), w))
      else (Inr (Text (msg_unsupported @ file_name)), w))"

definition process_file ::
  "env \<Rightarrow> processor \<Rightarrow> upload \<Rightarrow> str option \<Rightarrow> world \<Rightarrow> (exn + processed) \<times> world" where
  "process_file E self uploaded_file_or_content file_name w =
     error_handler (log_execution
       (case (case uploaded_file_or_content of
                UploadedFile content name \<Rightarrow> dispatch E self True content name w
              | RawBytes content \<Rightarrow>
                  (case file_name of
                     Some name \<Rightarrow>
                       (if name \<noteq> [] then dispatch E self False content name w
                        else (Inl (Exc ValueError msg_bad_args), w))
                   | None \<Rightarrow> (Inl (Exc ValueError msg_bad_args), w))
              | OtherObject \<Rightarrow> (Inl (Exc ValueError msg_bad_args), w)) of
          (Inl e, w1) \<Rightarrow>
            (Inl (Exc Exception (msg_process_failed @ str_exn e)),
             log_msg ERROR (msg_process_failed @ str_exn e) w1)
        | (Inr r, w1) \<Rightarrow> (Inr r, w1)))"

section \<open>An example environment\<close>

text \<open>
  Stand-ins for the libraries, used in the examples below: the digest of a message is
  the message itself, the \<open>n\<close>-th identifier is \<open>n + 1\<close> letters \<open>a\<close>, the parser
  accepts the files that start with \<open>%PDF\<close> and returns the rest as one page, and the
  splitter drops the pages without text.
\<close>

definition example_env :: env where
  "example_env =
     \<lparr>md5_hexdigest = (\<lambda>bs. bs),
      uuid4_hex = (\<lambda>n. replicate (Suc n) CHR ''a''),
      pdf_load = (\<lambda>p bs.
         if take 4 bs = ''%PDF''
         then Inr [\<lparr>page_content = drop 4 bs,
                    metadata = [(''source'', JStr p), (''page'', JInt 0)], doc_id = None\<rparr>]
         else Inl (Exc (LibraryError ''PdfReadError'') ''invalid pdf header'')),
      split_documents = (\<lambda>ds. Inr (filter (\<lambda>d. page_content d \<noteq> []) ds))\<rparr>"

text \<open>An empty disk on which nothing fails.\<close>

definition example_world :: world where
  "example_world =
     \<lparr>files = [], read_fault = (\<lambda>p. None), write_fault = (\<lambda>p. WriteOk),
      unlink_fault = (\<lambda>p. None), list_fault = (\<lambda>d. ListOk), uuid_drawn = 0,
      parser_calls = 0, log = [], io_trace = []\<rparr>"

definition example_doc :: document where
  "example_doc =
     \<lparr>page_content = ''hello'',
      metadata = [(''source'', JStr ''temp/temp_a.pdf''), (''page'', JInt 0)],
      doc_id = None\<rparr>"

text \<open>A disk that holds one cache record and on which no file can be deleted.\<close>

definition locked_world :: world where
  "locked_world =
     example_world
       \<lparr>files := [((''.cache'', ''k.json''), JsonText (JArr []))],
        unlink_fault := (\<lambda>p. Some (Exc OSError ''Permission denied''))\<rparr>"

text \<open>A disk that holds one cache record.\<close>

definition cached_world :: world where
  "cached_world =
     example_world\<lparr>files := [((''.cache'', ''k.json''), JsonText (JArr []))]\<rparr>"

text \<open>
  A disk that holds three cache records, the second of which cannot be deleted, and one
  whose cache directory cannot be listed.
\<close>

definition half_locked_world :: world where
  "half_locked_world =
     example_world
       \<lparr>files := [((''.cache'', ''a.json''), JsonText (JArr [])),
                  ((''.cache'', ''b.json''), JsonText (JArr [])),
                  ((''.cache'', ''c.json''), JsonText (JArr []))],
        unlink_fault := (\<lambda>p. if p = (''.cache'', ''b.json'')
                                then Some (Exc OSError ''Device or resource busy'')
                                else None)\<rparr>"

definition unlistable_world :: world where
  "unlistable_world =
     cached_world
       \<lparr>list_fault := (\<lambda>d. ListSwallowed (Exc OSError ''Permission denied''))\<rparr>"

text \<open>A disk on which the cache record of the example input is a truncated file.\<close>

definition corrupt_world :: world where
  "corrupt_world =
     example_world\<lparr>files := [((''.cache'', ''%PDFhelloa.pdf.json''), Truncated)]\<rparr>"

text \<open>A disk whose cache directory cannot be written.\<close>

definition readonly_world :: world where
  "readonly_world =
     example_world
       \<lparr>write_fault := (\<lambda>p. if fst p = ''.cache''
                               then OpenFails (Exc OSError ''Read-only file system'')
                               else WriteOk)\<rparr>"

section \<open>Properties\<close>

subsection \<open>Suffix tests\<close>

lemma endswith_lower: "endswith s suf \<Longrightarrow> lower suf = suf \<Longrightarrow> endswith (lower s) suf"
  unfolding endswith_def lower_def by (metis drop_map length_map)

lemma endswith_neq:
  "endswith s a \<Longrightarrow> length a = length b \<Longrightarrow> a \<noteq> b \<Longrightarrow> \<not> endswith s b"
  unfolding endswith_def by auto

lemma lower_txt: "lower ''.txt'' = ''.txt''"
  by (simp add: lower_def lower_char_def)

lemma decode_hello: "decode_utf8 ''hello'' = Inr ''hello''"
  by (simp add: decode_utf8_def)

subsection \<open>The cache record\<close>

lemma Document_dict: "Document (dict d) = Inr d"
  by (cases "doc_id d") (simp_all add: Document_def dict_def)

lemma build_documents_dict: "build_documents (map dict ds) = Inr ds"
  by (induction ds) (simp_all add: Document_dict)



subsection \<open>The cache key\<close>

text \<open>
  Claim C4 (cache key sensitivity), as amended. Two inputs that differ in the file bytes
  only, or in the file name only, get different cache keys and so different cache
  records, provided the digest does not collide on the two messages
  \<open>bytes + name\<close>. (The key is a function of that concatenation alone: inputs that
  differ in both parts can share it.)
\<close>

theorem cache_key_sensitivity:
  assumes "(c1 \<noteq> c2 \<and> n1 = n2) \<or> (c1 = c2 \<and> n1 \<noteq> n2)"
    and "md5_hexdigest E (c1 @ n1) = md5_hexdigest E (c2 @ n2) \<longrightarrow> c1 @ n1 = c2 @ n2"
  shows "get_cache_path E self c1 n1 \<noteq> get_cache_path E self c2 n2"
  using assms by (auto simp: get_cache_path_def)

theorem cache_key_sensitivity_witness:
  "((''X'' \<noteq> ''Y'' \<and> ''a.pdf'' = ''a.pdf'') \<or> (''X'' = ''Y'' \<and> ''a.pdf'' \<noteq> ''a.pdf''))
   \<and> md5_hexdigest example_env (''X'' @ ''a.pdf'') \<noteq> md5_hexdigest example_env (''Y'' @ ''a.pdf'')
   \<and> get_cache_path example_env (init ''.cache'' 4) ''X'' ''a.pdf''
        \<noteq> get_cache_path example_env (init ''.cache'' 4) ''Y'' ''a.pdf''"
  using cache_key_sensitivity
    [of "''X''" "''Y''" "''a.pdf''" "''a.pdf''" example_env "init ''.cache'' 4"]
  by (simp add: example_env_def)

text \<open>
  The claim as stated fails: the inputs \<open>(b"X", "a.pdf")\<close> and \<open>(b"Xa", ".pdf")\<close> differ
  in bytes and in name, and have the same cache path whatever the digest is.
\<close>

theorem cache_key_collision:
  "(''X'', ''a.pdf'') \<noteq> (''Xa'', ''.pdf'')
   \<and> (\<forall>E self. get_cache_path E self ''X'' ''a.pdf'' = get_cache_path E self ''Xa'' ''.pdf'')"
  by (simp add: get_cache_path_def)

subsection \<open>Dispatch on the file type\<close>

text \<open>
  Claim C6 (unsupported extension). For a well-formed input (an upload object, or bytes
  with a non-empty file name) whose lower-cased file name ends neither in \<open>.pdf\<close> nor in
  \<open>.txt\<close>, \<open>process_file\<close> returns the unsupported-type message followed by the file
  name; it raises nothing and leaves the world as it was.
\<close>

theorem unsupported_extension:
  assumes "u = UploadedFile c name \<or> (u = RawBytes c \<and> fn = Some name \<and> name \<noteq> [])"
    and "\<not> endswith (lower name) ''.pdf''" and "\<not> endswith (lower name) ''.txt''"
  shows "process_file E self u fn w = (Inr (Text (msg_unsupported @ name)), w)"
  using assms
  by (auto simp: process_file_def dispatch_def error_handler_def log_execution_def)

theorem unsupported_extension_witness:
  "(RawBytes ''PK'' = UploadedFile ''PK'' ''report.docx''
      \<or> (RawBytes ''PK'' = RawBytes ''PK'' \<and> Some ''report.docx'' = Some ''report.docx''
          \<and> ''report.docx'' \<noteq> []))
   \<and> \<not> endswith (lower ''report.docx'') ''.pdf''
   \<and> \<not> endswith (lower ''report.docx'') ''.txt''
   \<and> process_file example_env (init ''.cache'' 4) (RawBytes ''PK'') (Some ''report.docx'')
        example_world
      = (Inr (Text (msg_unsupported @ ''report.docx'')), example_world)"
  using unsupported_extension [of "RawBytes ''PK''" "''PK''" "''report.docx''"
      "Some ''report.docx''" example_env "init ''.cache'' 4" example_world]
  by (simp add: endswith_def lower_def lower_char_def)

text \<open>
  Claim C7 (text input). For the raw bytes \<open>hello\<close> and a file name that ends in \<open>.txt\<close>,
  \<open>process_file\<close> returns the string \<open>hello\<close>; the world it returns is the one it
  received: no file read, written or created (the trace of file operations included).
\<close>

theorem txt_hello:
  assumes "endswith name ''.txt''"
  shows "process_file E self (RawBytes ''hello'') (Some name) w = (Inr (Text ''hello''), w)"
proof -
  have l: "endswith (lower name) ''.txt''"
    using assms lower_txt by (rule endswith_lower)
  have np: "\<not> endswith (lower name) ''.pdf''"
    using l by (rule endswith_neq) simp_all
  have ne: "name \<noteq> []"
    using assms by (auto simp: endswith_def)
  show ?thesis
    by (simp add: process_file_def dispatch_def error_handler_def log_execution_def
        l np ne decode_hello)
qed

theorem txt_hello_witness:
  "endswith ''notes.txt'' ''.txt''
   \<and> process_file example_env (init ''.cache'' 4) (RawBytes ''hello'') (Some ''notes.txt'')
        example_world
      = (Inr (Text ''hello''), example_world)"
  using txt_hello [of "''notes.txt''" example_env "init ''.cache'' 4" example_world]
  by (simp add: endswith_def)

text \<open>
  Claim C8 (invalid arguments). When the first argument is neither an upload object nor
  bytes with a non-empty file name, \<open>process_file\<close> raises at once: the \<open>ValueError\<close> of
  the argument check, re-raised as an \<open>Exception\<close> that carries its message. The only
  effect is the error record in the log: no file operation, no parser call.
\<close>

theorem invalid_arguments:
  assumes "u = OtherObject \<or> (u = RawBytes c \<and> (fn = None \<or> fn = Some []))"
  shows "process_file E self u fn w =
           (Inl (Exc Exception (msg_process_failed @ msg_bad_args)),
            log_msg ERROR (msg_process_failed @ msg_bad_args) w)
         \<and> files (snd (process_file E self u fn w)) = files w
         \<and> io_trace (snd (process_file E self u fn w)) = io_trace w
         \<and> parser_calls (snd (process_file E self u fn w)) = parser_calls w"
  using assms
  by (auto simp: process_file_def error_handler_def log_execution_def log_msg_def)

theorem invalid_arguments_witness:
  "(RawBytes ''%PDF'' = OtherObject
      \<or> (RawBytes ''%PDF'' = RawBytes ''%PDF'' \<and> (None = (None :: str option) \<or> None = Some [])))
   \<and> process_file example_env (init ''.cache'' 4) (RawBytes ''%PDF'') None example_world
      = (Inl (Exc Exception (msg_process_failed @ msg_bad_args)),
         log_msg ERROR (msg_process_failed @ msg_bad_args) example_world)"
  using invalid_arguments [of "RawBytes ''%PDF''" "''%PDF''" None example_env
      "init ''.cache'' 4" example_world]
  by simp

subsection \<open>Clearing the cache\<close>

lemma unlink_fields:
  "unlink_fault (snd (unlink p w)) = unlink_fault w"
  "log (snd (unlink p w)) = log w"
  by (simp_all add: unlink_def trace_def Let_def split: option.splits)

lemma unlink_result:
  "map_of (files w) p \<noteq> None \<Longrightarrow>
     fst (unlink p w) = (case unlink_fault w p of None \<Rightarrow> Inr () | Some e \<Rightarrow> Inl e)"
  by (simp add: unlink_def trace_def Let_def split: option.splits)

lemma unlink_files:
  "map_of (files (snd (unlink p w))) q =
     (if q = p \<and> unlink_fault w p = None then None else map_of (files w) q)"
  by (auto simp: unlink_def trace_def Let_def delete_conv' split: option.splits)

text \<open>
  The loop over files that exist: it deletes the files in order up to the first one whose
  deletion fails, and ends with that failure; with no failure it deletes them all.
\<close>

lemma unlink_all_exact:
  assumes "distinct ps" and "\<forall>p\<in>set ps. map_of (files w) p \<noteq> None"
  shows "(case dropWhile (\<lambda>p. unlink_fault w p = None) ps of
            [] \<Rightarrow> fst (unlink_all ps w) = Inr ()
          | p # rest \<Rightarrow> (\<exists>e. unlink_fault w p = Some e \<and> fst (unlink_all ps w) = Inl e))
         \<and> (\<forall>q. map_of (files (snd (unlink_all ps w))) q =
               (if q \<in> set (takeWhile (\<lambda>p. unlink_fault w p = None) ps) then None
                else map_of (files w) q))
         \<and> log (snd (unlink_all ps w)) = log w"
  using assms
proof (induction ps arbitrary: w)
  case Nil
  then show ?case by simp
next
  case (Cons p ps)
  obtain r w1 where u: "unlink p w = (r, w1)" by (cases "unlink p w")
  have ex: "map_of (files w) p \<noteq> None" using Cons.prems(2) by simp
  have f: "unlink_fault w1 = unlink_fault w" "log w1 = log w"
    using unlink_fields [of p w] u by simp_all
  have r: "r = (case unlink_fault w p of None \<Rightarrow> Inr () | Some e \<Rightarrow> Inl e)"
    using unlink_result [OF ex] u by simp
  have fl: "map_of (files w1) q =
      (if q = p \<and> unlink_fault w p = None then None else map_of (files w) q)" for q
    using unlink_files [of p w q] u by simp
  show ?case
  proof (cases "unlink_fault w p")
    case (Some e)
    then show ?thesis using u r f fl by simp
  next
    case None
    have pre: "\<forall>q\<in>set ps. map_of (files w1) q \<noteq> None"
      using Cons.prems fl by auto
    have d': "distinct ps" using Cons.prems(1) by simp
    note ih = Cons.IH [OF d' pre, unfolded f]
    have ua: "unlink_all (p # ps) w = unlink_all ps w1"
      using u r None by simp
    show ?thesis
      unfolding ua using ih None f fl by auto
  qed
qed

lemma listing_set:
  "set (listing d s w) = {p \<in> fst ` set (files w). fst p = d \<and> endswith (snd p) s}"
  by (auto simp: listing_def)

lemma map_of_dom: "p \<in> fst ` set al \<longleftrightarrow> map_of al p \<noteq> None"
  by (simp add: map_of_eq_None_iff)

lemma listing_exists: "p \<in> set (listing d s w) \<Longrightarrow> map_of (files w) p \<noteq> None"
  by (simp add: listing_set map_of_dom)

lemma listing_cong:
  assumes "\<And>q. (map_of (files w') q = None) = (map_of (files w) q = None)"
  shows "set (listing d s w') = set (listing d s w)"
  using assms by (auto simp: listing_set map_of_dom)

text \<open>
  Claim C9 (\<open>clear_cache\<close>), as amended. \<open>clear_cache\<close> lists the \<open>*.json\<close> files of the
  cache directory and unlinks them in listing order. When the listing fails with an error
  that \<open>glob\<close> swallows, it deletes nothing, logs success and returns normally; when the
  listing fails with an error that \<open>glob\<close> raises, that error is logged and re-raised.
  When the listing works and no deletion fails, every cache record is deleted and
  \<open>clear_cache\<close> returns normally. Otherwise the first failure to delete an individual
  cache file ends the loop: the files listed before it are deleted, that file and the
  files after it stay on disk, and the failure is logged as an error and re-raised to the
  caller.
\<close>

theorem clear_cache_outcome:
  "(case list_fault w (cache_dir self) of
      ListRaises e \<Rightarrow>
        fst (clear_cache self w) = Inl e
        \<and> files (snd (clear_cache self w)) = files w
        \<and> last (log (snd (clear_cache self w)))
            = (ERROR, msg_clear_cache_failed @ str_exn e)
    | ListSwallowed e \<Rightarrow>
        fst (clear_cache self w) = Inr ()
        \<and> files (snd (clear_cache self w)) = files w
        \<and> last (log (snd (clear_cache self w))) = (INFO, msg_cache_cleared)
    | ListOk \<Rightarrow>
        (case dropWhile (\<lambda>p. unlink_fault w p = None) (listing (cache_dir self) ''.json'' w) of
           [] \<Rightarrow>
             fst (clear_cache self w) = Inr ()
             \<and> last (log (snd (clear_cache self w))) = (INFO, msg_cache_cleared)
             \<and> listing (cache_dir self) ''.json'' (snd (clear_cache self w)) = []
         | p # rest \<Rightarrow>
             (\<exists>e. unlink_fault w p = Some e
                \<and> fst (clear_cache self w) = Inl e
                \<and> last (log (snd (clear_cache self w)))
                    = (ERROR, msg_clear_cache_failed @ str_exn e)))
        \<and> (\<forall>q. map_of (files (snd (clear_cache self w))) q =
              (if q \<in> set (takeWhile (\<lambda>p. unlink_fault w p = None)
                             (listing (cache_dir self) ''.json'' w))
               then None else map_of (files w) q)))"
proof (cases "list_fault w (cache_dir self)")
  case (ListRaises e)
  then show ?thesis
    by (simp add: clear_cache_def glob_def trace_def log_msg_def)
next
  case (ListSwallowed e)
  then show ?thesis
    by (simp add: clear_cache_def glob_def trace_def log_msg_def)
next
  case ListOk
  let ?ps = "listing (cache_dir self) ''.json'' w"
  let ?w1 = "trace (IoGlob (cache_dir self)) w"
  let ?ok = "\<lambda>p. unlink_fault w p = None"
  let ?ua = "unlink_all ?ps ?w1"
  have w1: "files ?w1 = files w" "unlink_fault ?w1 = unlink_fault w" "log ?w1 = log w"
    by (simp_all add: trace_def)
  have d: "distinct ?ps" by (simp add: listing_def)
  have pre: "\<forall>p\<in>set ?ps. map_of (files ?w1) p \<noteq> None"
    using listing_exists [of _ "cache_dir self" "''.json''" w] w1 by auto
  note ex = unlink_all_exact [OF d pre, unfolded w1]
  note exr = ex [THEN conjunct1]
  note exf = ex [THEN conjunct2, THEN conjunct1, rule_format]
  have cc: "clear_cache self w =
      (case fst ?ua of
         Inl e \<Rightarrow> (Inl e, log_msg ERROR (msg_clear_cache_failed @ str_exn e) (snd ?ua))
       | Inr u \<Rightarrow> (Inr (), log_msg INFO msg_cache_cleared (snd ?ua)))"
    using ListOk
    by (cases ?ua) (simp add: clear_cache_def glob_def split: sum.splits)
  have fl: "map_of (files (snd (clear_cache self w))) q =
      (if q \<in> set (takeWhile ?ok ?ps) then None else map_of (files w) q)" for q
    by (cases "fst ?ua") (simp_all add: cc log_msg_def exf)
  show ?thesis
  proof (cases "dropWhile ?ok ?ps")
    case Nil
    then have all: "takeWhile ?ok ?ps = ?ps"
      by (metis append_Nil2 takeWhile_dropWhile_id)
    have r: "fst ?ua = Inr ()" using exr Nil by simp
    have "set (listing (cache_dir self) ''.json'' (snd (clear_cache self w))) = {}"
    proof (rule equals0I)
      fix p
      assume a: "p \<in> set (listing (cache_dir self) ''.json'' (snd (clear_cache self w)))"
      then have e: "map_of (files (snd (clear_cache self w))) p \<noteq> None"
        by (rule listing_exists)
      then have "p \<notin> set ?ps" "map_of (files w) p \<noteq> None"
        using fl [of p] all by (auto split: if_splits)
      moreover have "fst p = cache_dir self \<and> endswith (snd p) ''.json''"
        using a by (simp add: listing_set)
      ultimately show False by (simp add: listing_set map_of_dom)
    qed
    then have c3: "listing (cache_dir self) ''.json'' (snd (clear_cache self w)) = []"
      by simp
    have c1: "fst (clear_cache self w) = Inr ()"
      and c2: "last (log (snd (clear_cache self w))) = (INFO, msg_cache_cleared)"
      by (simp_all add: cc r log_msg_def)
    show ?thesis
      unfolding ListOk Nil by (simp add: c1 c2 c3 fl)
  next
    case (Cons p rest)
    then obtain e where e: "unlink_fault w p = Some e" "fst ?ua = Inl e"
      using exr by auto
    have c1: "fst (clear_cache self w) = Inl e"
      and c2: "last (log (snd (clear_cache self w)))
          = (ERROR, msg_clear_cache_failed @ str_exn e)"
      by (simp_all add: cc e log_msg_def)
    show ?thesis
      unfolding ListOk Cons by (simp add: c1 c2 e fl)
  qed
qed


theorem clear_cache_outcome_witness:
  "list_fault half_locked_world ''.cache'' = ListOk
   \<and> listing ''.cache'' ''.json'' half_locked_world
       = [(''.cache'', ''a.json''), (''.cache'', ''b.json''), (''.cache'', ''c.json'')]
   \<and> fst (clear_cache (init ''.cache'' 4) half_locked_world)
       = Inl (Exc OSError ''Device or resource busy'')
   \<and> last (log (snd (clear_cache (init ''.cache'' 4) half_locked_world)))
       = (ERROR, msg_clear_cache_failed @ ''Device or resource busy'')
   \<and> map_of (files (snd (clear_cache (init ''.cache'' 4) half_locked_world)))
        (''.cache'', ''a.json'') = None
   \<and> map_of (files (snd (clear_cache (init ''.cache'' 4) half_locked_world)))
        (''.cache'', ''b.json'') = Some (JsonText (JArr []))
   \<and> map_of (files (snd (clear_cache (init ''.cache'' 4) half_locked_world)))
        (''.cache'', ''c.json'') = Some (JsonText (JArr []))
   \<and> list_fault cached_world ''.cache'' = ListOk
   \<and> fst (clear_cache (init ''.cache'' 4) cached_world) = Inr ()
   \<and> listing ''.cache'' ''.json'' (snd (clear_cache (init ''.cache'' 4) cached_world)) = []
   \<and> list_fault unlistable_world ''.cache''
       = ListSwallowed (Exc OSError ''Permission denied'')
   \<and> fst (clear_cache (init ''.cache'' 4) unlistable_world) = Inr ()
   \<and> files (snd (clear_cache (init ''.cache'' 4) unlistable_world)) = files unlistable_world"
proof -
  have c: "cache_dir (init ''.cache'' 4) = ''.cache''"
    by (simp add: init_def)
  have l: "list_fault half_locked_world ''.cache'' = ListOk"
    "list_fault cached_world ''.cache'' = ListOk"
    "list_fault unlistable_world ''.cache'' = ListSwallowed (Exc OSError ''Permission denied'')"
    by (simp_all add: half_locked_world_def cached_world_def unlistable_world_def
        example_world_def)
  have g: "listing ''.cache'' ''.json'' half_locked_world
       = [(''.cache'', ''a.json''), (''.cache'', ''b.json''), (''.cache'', ''c.json'')]"
    "listing ''.cache'' ''.json'' cached_world = [(''.cache'', ''k.json'')]"
    by (simp_all add: listing_def half_locked_world_def cached_world_def example_world_def
        endswith_def)
  have u: "unlink_fault half_locked_world (''.cache'', ''a.json'') = None"
    "unlink_fault half_locked_world (''.cache'', ''b.json'')
       = Some (Exc OSError ''Device or resource busy'')"
    "unlink_fault cached_world (''.cache'', ''k.json'') = None"
    by (simp_all add: half_locked_world_def cached_world_def example_world_def)
  have f: "map_of (files half_locked_world) (''.cache'', ''b.json'') = Some (JsonText (JArr []))"
    "map_of (files half_locked_world) (''.cache'', ''c.json'') = Some (JsonText (JArr []))"
    by (simp_all add: half_locked_world_def example_world_def)
  show ?thesis
    using clear_cache_outcome [where w = half_locked_world and self = "init ''.cache'' 4"]
      clear_cache_outcome [where w = cached_world and self = "init ''.cache'' 4"]
      clear_cache_outcome [where w = unlistable_world and self = "init ''.cache'' 4"]
    by (simp add: c l g u f)
qed

text \<open>
  The claim as stated fails: when the one cache file cannot be deleted, \<open>clear_cache\<close>
  raises that failure, and the file is still there.
\<close>

theorem clear_cache_reraises:
  "fst (clear_cache (init ''.cache'' 4) locked_world) = Inl (Exc OSError ''Permission denied'')
   \<and> map_of (files (snd (clear_cache (init ''.cache'' 4) locked_world))) (''.cache'', ''k.json'')
       = Some (JsonText (JArr []))"
  by (simp add: clear_cache_def glob_def listing_def init_def locked_world_def
      example_world_def endswith_def trace_def unlink_def log_msg_def)

subsection \<open>The steps of PDF processing\<close>

text \<open>
  Each operation changes few components of the world; the faults are a fixed part of it.
\<close>

lemma log_msg_fields:
  "files (log_msg lv m w) = files w" "uuid_drawn (log_msg lv m w) = uuid_drawn w"
  "parser_calls (log_msg lv m w) = parser_calls w"
  "read_fault (log_msg lv m w) = read_fault w" "write_fault (log_msg lv m w) = write_fault w"
  "unlink_fault (log_msg lv m w) = unlink_fault w"
  by (simp_all add: log_msg_def)

text \<open>What \<open>_load_from_cache\<close> returns, read off the file and the read fault.\<close>

lemma load_from_cache_result:
  "fst (load_from_cache p w) =
     (case map_of (files w) p of
        None \<Rightarrow> None
      | Some x \<Rightarrow>
          (case read_fault w p of
             Some e \<Rightarrow> None
           | None \<Rightarrow>
               (case x of
                  JsonText v \<Rightarrow> (case documents_of_data v of Inl e \<Rightarrow> None | Inr ds \<Rightarrow> Some ds)
                | _ \<Rightarrow> None)))"
  by (simp add: load_from_cache_def path_exists_def read_json_def trace_def Let_def
      split: option.splits content.splits sum.splits)

lemma load_from_cache_frame:
  "files (snd (load_from_cache p w)) = files w"
  "uuid_drawn (snd (load_from_cache p w)) = uuid_drawn w"
  "parser_calls (snd (load_from_cache p w)) = parser_calls w"
  "read_fault (snd (load_from_cache p w)) = read_fault w"
  "write_fault (snd (load_from_cache p w)) = write_fault w"
  "unlink_fault (snd (load_from_cache p w)) = unlink_fault w"
  by (simp_all add: load_from_cache_def path_exists_def read_json_def trace_def Let_def
      log_msg_def split: option.splits content.splits sum.splits)

lemma save_to_cache_frame:
  "uuid_drawn (save_to_cache p ds w) = uuid_drawn w"
  "parser_calls (save_to_cache p ds w) = parser_calls w"
  "read_fault (save_to_cache p ds w) = read_fault w"
  "write_fault (save_to_cache p ds w) = write_fault w"
  "unlink_fault (save_to_cache p ds w) = unlink_fault w"
  by (simp_all add: save_to_cache_def write_file_def trace_def Let_def log_msg_def
      split: wfault.splits)

lemma save_to_cache_files:
  "map_of (files (save_to_cache p ds w)) q =
     (if q = p then
        (case write_fault w p of
           WriteOk \<Rightarrow> Some (JsonText (JArr (map dict ds)))
         | OpenFails e \<Rightarrow> map_of (files w) p
         | FailsMidway e \<Rightarrow> Some Truncated)
      else map_of (files w) q)"
  by (simp add: save_to_cache_def write_file_def trace_def Let_def log_msg_def update_conv'
      split: wfault.splits)

lemma cleanup_temp_file_frame:
  "uuid_drawn (cleanup_temp_file p w) = uuid_drawn w"
  "parser_calls (cleanup_temp_file p w) = parser_calls w"
  "read_fault (cleanup_temp_file p w) = read_fault w"
  "write_fault (cleanup_temp_file p w) = write_fault w"
  "unlink_fault (cleanup_temp_file p w) = unlink_fault w"
  by (simp_all add: cleanup_temp_file_def path_exists_def unlink_def trace_def Let_def
      log_msg_def split: option.splits)

lemma cleanup_temp_file_files:
  "map_of (files (cleanup_temp_file p w)) q =
     (if q = p \<and> unlink_fault w p = None then None else map_of (files w) q)"
  by (auto simp: cleanup_temp_file_def path_exists_def unlink_def trace_def Let_def
      log_msg_def delete_conv' split: option.splits)

lemma create_temp_file_frame:
  "uuid_drawn (snd (create_temp_file E self c s w)) = Suc (uuid_drawn w)"
  "parser_calls (snd (create_temp_file E self c s w)) = parser_calls w"
  "read_fault (snd (create_temp_file E self c s w)) = read_fault w"
  "write_fault (snd (create_temp_file E self c s w)) = write_fault w"
  "unlink_fault (snd (create_temp_file E self c s w)) = unlink_fault w"
  by (simp_all add: create_temp_file_def write_file_def trace_def Let_def
      split: wfault.splits)

lemma create_temp_file_result:
  "fst (create_temp_file E self c s w) =
     (case write_fault w (next_temp_path E self s w) of
        WriteOk \<Rightarrow> Inr (next_temp_path E self s w)
      | OpenFails e \<Rightarrow> Inl e
      | FailsMidway e \<Rightarrow> Inl e)"
  by (simp add: create_temp_file_def write_file_def trace_def Let_def split: wfault.splits)

lemma create_temp_file_files:
  "map_of (files (snd (create_temp_file E self c s w))) q =
     (if q = next_temp_path E self s w then
        (case write_fault w q of
           WriteOk \<Rightarrow> Some (Binary c)
         | OpenFails e \<Rightarrow> map_of (files w) q
         | FailsMidway e \<Rightarrow> Some Truncated)
      else map_of (files w) q)"
  by (simp add: create_temp_file_def write_file_def trace_def Let_def update_conv'
      split: wfault.splits)

lemma loader_load_frame:
  "files (snd (loader_load E p w)) = files w"
  "uuid_drawn (snd (loader_load E p w)) = uuid_drawn w"
  "parser_calls (snd (loader_load E p w)) = Suc (parser_calls w)"
  "read_fault (snd (loader_load E p w)) = read_fault w"
  "write_fault (snd (loader_load E p w)) = write_fault w"
  "unlink_fault (snd (loader_load E p w)) = unlink_fault w"
  by (simp_all add: loader_load_def trace_def Let_def
      split: option.splits content.splits)

lemma parse_and_split_frame:
  "uuid_drawn (snd (parse_and_split E cp tp w)) = uuid_drawn w"
  "parser_calls (snd (parse_and_split E cp tp w)) = Suc (parser_calls w)"
  "read_fault (snd (parse_and_split E cp tp w)) = read_fault w"
  "write_fault (snd (parse_and_split E cp tp w)) = write_fault w"
  "unlink_fault (snd (parse_and_split E cp tp w)) = unlink_fault w"
proof -
  obtain r w1 where l: "loader_load E tp w = (r, w1)" by (cases "loader_load E tp w")
  have f: "uuid_drawn w1 = uuid_drawn w" "parser_calls w1 = Suc (parser_calls w)"
    "read_fault w1 = read_fault w" "write_fault w1 = write_fault w"
    "unlink_fault w1 = unlink_fault w"
    using loader_load_frame [where E = E and p = tp and w = w] l by simp_all
  show "uuid_drawn (snd (parse_and_split E cp tp w)) = uuid_drawn w"
    "parser_calls (snd (parse_and_split E cp tp w)) = Suc (parser_calls w)"
    "read_fault (snd (parse_and_split E cp tp w)) = read_fault w"
    "write_fault (snd (parse_and_split E cp tp w)) = write_fault w"
    "unlink_fault (snd (parse_and_split E cp tp w)) = unlink_fault w"
    using l f by (auto simp: parse_and_split_def save_to_cache_frame split: sum.splits)
qed

lemma parse_and_split_files:
  "map_of (files (snd (parse_and_split E cp tp w))) q =
     (case fst (parse_and_split E cp tp w) of
        Inr ds \<Rightarrow>
          (if q = cp \<and> ds \<noteq> [] then
             (case write_fault w cp of
                WriteOk \<Rightarrow> Some (JsonText (JArr (map dict ds)))
              | OpenFails e \<Rightarrow> map_of (files w) cp
              | FailsMidway e \<Rightarrow> Some Truncated)
           else map_of (files w) q)
      | Inl e \<Rightarrow> map_of (files w) q)"
proof -
  obtain r w1 where l: "loader_load E tp w = (r, w1)" by (cases "loader_load E tp w")
  have f: "files w1 = files w" "write_fault w1 = write_fault w"
    using loader_load_frame [where E = E and p = tp and w = w] l by simp_all
  show ?thesis
    using l f
    by (auto simp: parse_and_split_def save_to_cache_files split: sum.splits wfault.splits)
qed

lemma parse_and_split_result:
  "fst (parse_and_split E cp tp w) =
     (case read_fault w tp of
        Some e \<Rightarrow> Inl e
      | None \<Rightarrow>
          (case map_of (files w) tp of
             Some (Binary bs) \<Rightarrow>
               (case pdf_load E (path_str tp) bs of
                  Inl e \<Rightarrow> Inl e
                | Inr docs \<Rightarrow> split_documents E docs)
           | Some _ \<Rightarrow> Inl (Exc (LibraryError ''PdfReadError'') ''not a PDF file'')
           | None \<Rightarrow> Inl (Exc ValueError ''File path is not a valid file'')))"
  by (simp add: parse_and_split_def loader_load_def trace_def Let_def
      split: option.splits content.splits sum.splits)


lemma temp_ne_cache: "next_temp_path E self ''.pdf'' w \<noteq> get_cache_path E' self' c n"
proof
  assume "next_temp_path E self ''.pdf'' w = get_cache_path E' self' c n"
  then have "last (''temp_'' @ uuid4_hex E (uuid_drawn w) @ ''.pdf'')
      = last (md5_hexdigest E' (c @ n) @ ''.json'')"
    by (simp add: next_temp_path_def get_cache_path_def)
  then show False by simp
qed

lemma next_temp_path_cong:
  "uuid_drawn w' = uuid_drawn w \<Longrightarrow> next_temp_path E self s w' = next_temp_path E self s w"
  by (simp add: next_temp_path_def)

lemmas frame =
  log_msg_fields load_from_cache_frame save_to_cache_frame cleanup_temp_file_frame
  create_temp_file_frame loader_load_frame parse_and_split_frame

lemma process_pdf_hit:
  assumes "fst (load_from_cache (get_cache_path E self c n) w) = Some ds"
  shows "process_pdf E self c n w =
           (Inr ds, log_msg INFO (msg_loaded_from_cache @ n)
                      (snd (load_from_cache (get_cache_path E self c n) w)))"
proof -
  obtain r w1 where l: "load_from_cache (get_cache_path E self c n) w = (r, w1)"
    by (cases "load_from_cache (get_cache_path E self c n) w")
  then have "r = Some ds" using assms by simp
  then show ?thesis
    using l by (simp add: process_pdf_def error_handler_def log_execution_def)
qed

lemma process_pdf_miss:
  assumes "fst (load_from_cache (get_cache_path E self c n) w) = None"
  shows "process_pdf E self c n w =
     (let cp = get_cache_path E self c n;
          w1 = log_msg INFO (msg_processing @ n) (snd (load_from_cache cp w));
          cr = create_temp_file E self c ''.pdf'' w1 in
      case fst cr of
        Inl e \<Rightarrow> (Inl e, log_msg ERROR (msg_pdf_failed @ str_exn e) (snd cr))
      | Inr tp \<Rightarrow>
          (let ps = parse_and_split E cp tp (snd cr) in
           (fst ps,
            cleanup_temp_file tp
              (case fst ps of
                 Inl e \<Rightarrow> log_msg ERROR (msg_pdf_failed @ str_exn e) (snd ps)
               | Inr ds \<Rightarrow> snd ps))))"
proof -
  obtain r w1 where l: "load_from_cache (get_cache_path E self c n) w = (r, w1)"
    by (cases "load_from_cache (get_cache_path E self c n) w")
  then have r: "r = None" using assms by simp
  obtain a w2 where
    cr: "create_temp_file E self c ''.pdf'' (log_msg INFO (msg_processing @ n) w1) = (a, w2)"
    by (cases "create_temp_file E self c ''.pdf'' (log_msg INFO (msg_processing @ n) w1)")
  show ?thesis
  proof (cases a)
    case (Inl e)
    then show ?thesis
      using l r cr by (simp add: process_pdf_def error_handler_def log_execution_def)
  next
    case (Inr tp)
    obtain b w3 where ps: "parse_and_split E (get_cache_path E self c n) tp w2 = (b, w3)"
      by (cases "parse_and_split E (get_cache_path E self c n) tp w2")
    show ?thesis
      using l r cr Inr ps
      by (cases b) (simp_all add: process_pdf_def error_handler_def log_execution_def)
  qed
qed


lemma process_pdf_faults:
  "read_fault (snd (process_pdf E self c n w)) = read_fault w
   \<and> write_fault (snd (process_pdf E self c n w)) = write_fault w
   \<and> unlink_fault (snd (process_pdf E self c n w)) = unlink_fault w"
proof (cases "fst (load_from_cache (get_cache_path E self c n) w)")
  case None
  show ?thesis
    by (simp add: process_pdf_miss [OF None] Let_def frame split: sum.splits)
next
  case (Some ds)
  show ?thesis
    by (simp add: process_pdf_hit [OF Some] frame)
qed


lemma process_pdf_miss_result:
  assumes "fst (load_from_cache (get_cache_path E self c n) w) = None"
  shows "fst (process_pdf E self c n w) =
     (let tp = next_temp_path E self ''.pdf'' w in
      case write_fault w tp of
        WriteOk \<Rightarrow>
          (case read_fault w tp of
             Some e \<Rightarrow> Inl e
           | None \<Rightarrow>
               (case pdf_load E (path_str tp) c of
                  Inl e \<Rightarrow> Inl e
                | Inr docs \<Rightarrow> split_documents E docs))
      | OpenFails e \<Rightarrow> Inl e
      | FailsMidway e \<Rightarrow> Inl e)"
proof -
  let ?cp = "get_cache_path E self c n"
  let ?w1 = "log_msg INFO (msg_processing @ n) (snd (load_from_cache ?cp w))"
  let ?tp = "next_temp_path E self ''.pdf'' w"
  have tp: "next_temp_path E self ''.pdf'' ?w1 = ?tp"
    by (simp add: next_temp_path_def frame)
  have wf: "write_fault ?w1 = write_fault w" "read_fault ?w1 = read_fault w"
    by (simp_all add: frame)
  show ?thesis
  proof (cases "write_fault w ?tp")
    case WriteOk
    then have cr: "fst (create_temp_file E self c ''.pdf'' ?w1) = Inr ?tp"
      by (simp add: create_temp_file_result tp wf)
    have f: "map_of (files (snd (create_temp_file E self c ''.pdf'' ?w1))) ?tp = Some (Binary c)"
      using WriteOk by (simp add: create_temp_file_files tp wf)
    show ?thesis
      using WriteOk f
      by (simp add: process_pdf_miss [OF assms] Let_def cr parse_and_split_result frame
          split: option.splits sum.splits)
  next
    case (OpenFails e)
    then have cr: "fst (create_temp_file E self c ''.pdf'' ?w1) = Inl e"
      by (simp add: create_temp_file_result tp wf)
    show ?thesis
      using OpenFails by (simp add: process_pdf_miss [OF assms] Let_def cr)
  next
    case (FailsMidway e)
    then have cr: "fst (create_temp_file E self c ''.pdf'' ?w1) = Inl e"
      by (simp add: create_temp_file_result tp wf)
    show ?thesis
      using FailsMidway by (simp add: process_pdf_miss [OF assms] Let_def cr)
  qed
qed


lemma process_pdf_miss_parser_calls:
  assumes "fst (load_from_cache (get_cache_path E self c n) w) = None"
  shows "parser_calls (snd (process_pdf E self c n w)) =
     (if write_fault w (next_temp_path E self ''.pdf'' w) = WriteOk
      then Suc (parser_calls w) else parser_calls w)"
proof -
  let ?cp = "get_cache_path E self c n"
  let ?w1 = "log_msg INFO (msg_processing @ n) (snd (load_from_cache ?cp w))"
  let ?tp = "next_temp_path E self ''.pdf'' w"
  have tp: "next_temp_path E self ''.pdf'' ?w1 = ?tp"
    by (simp add: next_temp_path_def frame)
  have wf: "write_fault ?w1 = write_fault w"
    by (simp add: frame)
  have cr: "fst (create_temp_file E self c ''.pdf'' ?w1) =
      (case write_fault w ?tp of WriteOk \<Rightarrow> Inr ?tp | OpenFails e \<Rightarrow> Inl e
       | FailsMidway e \<Rightarrow> Inl e)"
    by (simp add: create_temp_file_result tp wf split: wfault.splits)
  show ?thesis
    by (cases "write_fault w ?tp")
      (simp_all add: process_pdf_miss [OF assms] Let_def cr frame split: sum.splits)
qed

lemma process_pdf_miss_files:
  assumes "fst (load_from_cache (get_cache_path E self c n) w) = None"
  shows "map_of (files (snd (process_pdf E self c n w))) q =
     (let cp = get_cache_path E self c n; tp = next_temp_path E self ''.pdf'' w in
      if q = tp then
        (case write_fault w tp of
           WriteOk \<Rightarrow> (if unlink_fault w tp = None then None else Some (Binary c))
         | OpenFails e \<Rightarrow> map_of (files w) tp
         | FailsMidway e \<Rightarrow> Some Truncated)
      else if q = cp then
        (case fst (process_pdf E self c n w) of
           Inr ds \<Rightarrow>
             (if ds \<noteq> [] then
                (case write_fault w cp of
                   WriteOk \<Rightarrow> Some (JsonText (JArr (map dict ds)))
                 | OpenFails e \<Rightarrow> map_of (files w) cp
                 | FailsMidway e \<Rightarrow> Some Truncated)
              else map_of (files w) cp)
         | Inl e \<Rightarrow> map_of (files w) cp)
      else map_of (files w) q)"
proof -
  let ?cp = "get_cache_path E self c n"
  let ?w1 = "log_msg INFO (msg_processing @ n) (snd (load_from_cache ?cp w))"
  let ?tp = "next_temp_path E self ''.pdf'' w"
  let ?cr = "create_temp_file E self c ''.pdf'' ?w1"
  have tp: "next_temp_path E self ''.pdf'' ?w1 = ?tp"
    by (simp add: next_temp_path_def frame)
  have wf: "write_fault ?w1 = write_fault w" "unlink_fault ?w1 = unlink_fault w"
    "files ?w1 = files w"
    by (simp_all add: frame)
  have ne: "?tp \<noteq> ?cp" by (rule temp_ne_cache)
  have cf: "map_of (files (snd ?cr)) q =
     (if q = ?tp then
        (case write_fault w ?tp of
           WriteOk \<Rightarrow> Some (Binary c)
         | OpenFails e \<Rightarrow> map_of (files w) ?tp
         | FailsMidway e \<Rightarrow> Some Truncated)
      else map_of (files w) q)" for q
    by (simp add: create_temp_file_files tp wf split: wfault.splits)
  show ?thesis
  proof (cases "write_fault w ?tp")
    case WriteOk
    then have cr: "fst ?cr = Inr ?tp"
      by (simp add: create_temp_file_result tp wf)
    let ?ps = "parse_and_split E ?cp ?tp (snd ?cr)"
    have pp: "process_pdf E self c n w =
        (fst ?ps, cleanup_temp_file ?tp
           (case fst ?ps of
              Inl e \<Rightarrow> log_msg ERROR (msg_pdf_failed @ str_exn e) (snd ?ps)
            | Inr ds \<Rightarrow> snd ?ps))"
      by (simp add: process_pdf_miss [OF assms] Let_def cr)
    have pf: "map_of (files (snd ?ps)) q =
       (case fst ?ps of
          Inr ds \<Rightarrow>
            (if q = ?cp \<and> ds \<noteq> [] then
               (case write_fault w ?cp of
                  WriteOk \<Rightarrow> Some (JsonText (JArr (map dict ds)))
                | OpenFails e \<Rightarrow> map_of (files w) ?cp
                | FailsMidway e \<Rightarrow> Some Truncated)
             else map_of (files (snd ?cr)) q)
        | Inl e \<Rightarrow> map_of (files (snd ?cr)) q)" for q
      using ne by (simp add: parse_and_split_files frame cf split: sum.splits wfault.splits)
    show ?thesis
    proof (cases "fst ?ps")
      case (Inl e)
      then show ?thesis
        using WriteOk ne
        by (simp add: pp cleanup_temp_file_files frame pf cf Let_def)
    next
      case (Inr ds)
      then show ?thesis
        using WriteOk ne
        by (simp add: pp cleanup_temp_file_files frame pf cf Let_def)
    qed
  next
    case (OpenFails e)
    then have cr: "fst ?cr = Inl e"
      by (simp add: create_temp_file_result tp wf)
    show ?thesis
      using OpenFails ne by (simp add: process_pdf_miss [OF assms] Let_def cr frame cf)
  next
    case (FailsMidway e)
    then have cr: "fst ?cr = Inl e"
      by (simp add: create_temp_file_result tp wf)
    show ?thesis
      using FailsMidway ne by (simp add: process_pdf_miss [OF assms] Let_def cr frame cf)
  qed
qed

subsection \<open>PDF processing and the cache\<close>

lemma load_saved:
  assumes "map_of (files w) p = Some (JsonText (JArr (map dict ds)))" and "read_fault w p = None"
  shows "fst (load_from_cache p w) = Some ds"
  using assms
  by (simp add: load_from_cache_result documents_of_data_def build_documents_dict)

lemma load_from_cache_cong:
  assumes "map_of (files w') p = map_of (files w) p" and "read_fault w' p = read_fault w p"
  shows "fst (load_from_cache p w') = fst (load_from_cache p w)"
  using assms by (simp add: load_from_cache_result cong: option.case_cong)

text \<open>
  Claim C1 (idempotence), as amended. When a call of \<open>_process_pdf\<close> returns a
  non-empty chunk list, and neither writing nor reading the cache record of the input
  fails, a second call with the same bytes and the same file name returns the same chunk
  list; it takes it from the cache: the parser is not invoked again and no file changes.
\<close>

theorem second_call_hits_cache:
  assumes "process_pdf E self c n w = (Inr ds, w1)" and "ds \<noteq> []"
    and "write_fault w (get_cache_path E self c n) = WriteOk"
    and "read_fault w (get_cache_path E self c n) = None"
  shows "fst (process_pdf E self c n w1) = Inr ds
         \<and> parser_calls (snd (process_pdf E self c n w1)) = parser_calls w1
         \<and> files (snd (process_pdf E self c n w1)) = files w1"
proof -
  let ?cp = "get_cache_path E self c n"
  have rf: "read_fault w1 = read_fault w"
    using process_pdf_faults [of E self c n w] assms(1) by simp
  have hit: "fst (load_from_cache ?cp w1) = Some ds"
  proof (cases "fst (load_from_cache ?cp w)")
    case None
    have r: "fst (process_pdf E self c n w) = Inr ds" using assms(1) by simp
    have "map_of (files w1) ?cp = Some (JsonText (JArr (map dict ds)))"
      using process_pdf_miss_files [OF None, of ?cp] assms temp_ne_cache [of E self w E self c n]
      by (simp add: Let_def)
    then show ?thesis using assms(4) rf by (simp add: load_saved)
  next
    case (Some ds')
    have pp: "process_pdf E self c n w =
        (Inr ds', log_msg INFO (msg_loaded_from_cache @ n) (snd (load_from_cache ?cp w)))"
      using Some by (rule process_pdf_hit)
    then have "ds' = ds" and "files w1 = files w"
      using assms(1) by (auto simp: frame)
    then show ?thesis
      using Some rf load_from_cache_cong [of w1 ?cp w] by simp
  qed
  show ?thesis
    by (simp add: process_pdf_hit [OF hit] frame)
qed


text \<open>The definitions that running the model on the examples unfolds.\<close>

lemmas run_defs =
  process_pdf_def error_handler_def log_execution_def get_cache_path_def load_from_cache_def
  path_exists_def read_json_def create_temp_file_def next_temp_path_def write_file_def
  parse_and_split_def loader_load_def save_to_cache_def cleanup_temp_file_def unlink_def
  trace_def log_msg_def path_str_def documents_of_data_def Document_def dict_def
  example_env_def example_world_def init_def Let_def

text \<open>
  The claim as stated fails: a file whose pages hold no text splits into no chunk, the
  empty list is not written to the cache, and the second call parses the file again.
\<close>

theorem empty_pdf_parsed_twice:
  "fst (process_pdf example_env (init ''.cache'' 4) ''%PDF'' ''a.pdf'' example_world) = Inr []
   \<and> parser_calls (snd (process_pdf example_env (init ''.cache'' 4) ''%PDF'' ''a.pdf''
         example_world)) = 1
   \<and> fst (process_pdf example_env (init ''.cache'' 4) ''%PDF'' ''a.pdf''
         (snd (process_pdf example_env (init ''.cache'' 4) ''%PDF'' ''a.pdf'' example_world)))
       = Inr []
   \<and> parser_calls (snd (process_pdf example_env (init ''.cache'' 4) ''%PDF'' ''a.pdf''
         (snd (process_pdf example_env (init ''.cache'' 4) ''%PDF'' ''a.pdf'' example_world))))
       = 2"
  by (simp add: run_defs)

theorem second_call_hits_cache_witness:
  "process_pdf example_env (init ''.cache'' 4) ''%PDFhello'' ''a.pdf'' example_world
     = (Inr [example_doc],
        snd (process_pdf example_env (init ''.cache'' 4) ''%PDFhello'' ''a.pdf'' example_world))
   \<and> [example_doc] \<noteq> []
   \<and> write_fault example_world
        (get_cache_path example_env (init ''.cache'' 4) ''%PDFhello'' ''a.pdf'') = WriteOk
   \<and> read_fault example_world
        (get_cache_path example_env (init ''.cache'' 4) ''%PDFhello'' ''a.pdf'') = None
   \<and> fst (process_pdf example_env (init ''.cache'' 4) ''%PDFhello'' ''a.pdf''
         (snd (process_pdf example_env (init ''.cache'' 4) ''%PDFhello'' ''a.pdf''
            example_world)))
       = Inr [example_doc]
   \<and> parser_calls (snd (process_pdf example_env (init ''.cache'' 4) ''%PDFhello'' ''a.pdf''
         (snd (process_pdf example_env (init ''.cache'' 4) ''%PDFhello'' ''a.pdf''
            example_world))))
       = parser_calls (snd (process_pdf example_env (init ''.cache'' 4) ''%PDFhello'' ''a.pdf''
            example_world))"
proof -
  have r: "fst (process_pdf example_env (init ''.cache'' 4) ''%PDFhello'' ''a.pdf''
      example_world) = Inr [example_doc]"
    by (simp add: run_defs example_doc_def)
  have p: "process_pdf example_env (init ''.cache'' 4) ''%PDFhello'' ''a.pdf'' example_world
     = (Inr [example_doc],
        snd (process_pdf example_env (init ''.cache'' 4) ''%PDFhello'' ''a.pdf'' example_world))"
    using r by (metis prod.collapse)
  have f: "write_fault example_world
        (get_cache_path example_env (init ''.cache'' 4) ''%PDFhello'' ''a.pdf'') = WriteOk"
    "read_fault example_world
        (get_cache_path example_env (init ''.cache'' 4) ''%PDFhello'' ''a.pdf'') = None"
    by (simp_all add: example_world_def)
  show ?thesis
    using second_call_hits_cache [OF p _ f] p f by simp
qed


subsection \<open>The scratch file\<close>

lemma process_pdf_hit_files:
  assumes "fst (load_from_cache (get_cache_path E self c n) w) = Some ds"
  shows "files (snd (process_pdf E self c n w)) = files w"
  by (simp add: process_pdf_hit [OF assms] frame)

lemma cleanup_temp_file_failure_logged:
  assumes "map_of (files w) p \<noteq> None" and "unlink_fault w p = Some e"
  shows "log (cleanup_temp_file p w)
           = log w @ [(WARNING, msg_temp_cleanup_failed @ path_str p @ '': '' @ str_exn e)]"
  using assms
  by (auto simp: cleanup_temp_file_def path_exists_def unlink_def trace_def Let_def log_msg_def)

lemma process_pdf_miss_written:
  assumes "fst (load_from_cache (get_cache_path E self c n) w) = None"
    and "write_fault w (next_temp_path E self ''.pdf'' w) = WriteOk"
  shows "\<exists>wx. snd (process_pdf E self c n w)
               = cleanup_temp_file (next_temp_path E self ''.pdf'' w) wx
             \<and> map_of (files wx) (next_temp_path E self ''.pdf'' w) = Some (Binary c)
             \<and> unlink_fault wx = unlink_fault w"
proof -
  let ?cp = "get_cache_path E self c n"
  let ?w1 = "log_msg INFO (msg_processing @ n) (snd (load_from_cache ?cp w))"
  let ?tp = "next_temp_path E self ''.pdf'' w"
  let ?cr = "create_temp_file E self c ''.pdf'' ?w1"
  let ?ps = "parse_and_split E ?cp ?tp (snd ?cr)"
  let ?wx = "case fst ?ps of
               Inl e \<Rightarrow> log_msg ERROR (msg_pdf_failed @ str_exn e) (snd ?ps)
             | Inr ds \<Rightarrow> snd ?ps"
  have tp: "next_temp_path E self ''.pdf'' ?w1 = ?tp"
    by (simp add: next_temp_path_def frame)
  have wf: "write_fault ?w1 = write_fault w" "files ?w1 = files w"
    by (simp_all add: frame)
  have ne: "?tp \<noteq> ?cp" by (rule temp_ne_cache)
  have cr: "fst ?cr = Inr ?tp"
    using assms(2) by (simp add: create_temp_file_result tp wf)
  have cf: "map_of (files (snd ?cr)) ?tp = Some (Binary c)"
    using assms(2) by (simp add: create_temp_file_files tp wf)
  have pp: "snd (process_pdf E self c n w) = cleanup_temp_file ?tp ?wx"
    by (simp add: process_pdf_miss [OF assms(1)] Let_def cr)
  have pf: "map_of (files (snd ?ps)) ?tp = Some (Binary c)"
    using ne cf by (simp add: parse_and_split_files split: sum.splits)
  have "map_of (files ?wx) ?tp = Some (Binary c)" "unlink_fault ?wx = unlink_fault w"
    using pf by (simp_all add: frame split: sum.splits)
  then show ?thesis using pp by blast
qed

text \<open>
  Claim C2 (scratch cleanup), as amended. Take a call of \<open>_process_pdf\<close> whose scratch
  file is not left half written by a failing write. If deleting the scratch file does
  not fail, the call leaves no file behind that was not there before, the cache record
  apart, whether it returns chunks or raises the parser's exception, and the scratch file
  it wrote is gone. If deleting the scratch file fails, the failure is logged as a
  warning and swallowed, and the scratch file stays on disk.
\<close>

theorem scratch_file_removed:
  assumes "\<forall>e. write_fault w (next_temp_path E self ''.pdf'' w) \<noteq> FailsMidway e"
  shows "(unlink_fault w (next_temp_path E self ''.pdf'' w) = None \<longrightarrow>
            (\<forall>p. p \<noteq> get_cache_path E self c n \<and> map_of (files w) p = None
               \<longrightarrow> map_of (files (snd (process_pdf E self c n w))) p = None)
            \<and> (fst (load_from_cache (get_cache_path E self c n) w) = None
                 \<and> write_fault w (next_temp_path E self ''.pdf'' w) = WriteOk
               \<longrightarrow> map_of (files (snd (process_pdf E self c n w)))
                     (next_temp_path E self ''.pdf'' w) = None))
         \<and> (\<forall>e. unlink_fault w (next_temp_path E self ''.pdf'' w) = Some e
                 \<and> fst (load_from_cache (get_cache_path E self c n) w) = None
                 \<and> write_fault w (next_temp_path E self ''.pdf'' w) = WriteOk
               \<longrightarrow> map_of (files (snd (process_pdf E self c n w)))
                     (next_temp_path E self ''.pdf'' w) = Some (Binary c)
                   \<and> last (log (snd (process_pdf E self c n w)))
                       = (WARNING, msg_temp_cleanup_failed
                            @ path_str (next_temp_path E self ''.pdf'' w) @ '': '' @ str_exn e))"
proof -
  let ?cp = "get_cache_path E self c n"
  let ?tp = "next_temp_path E self ''.pdf'' w"
  have A: "(\<forall>p. p \<noteq> ?cp \<and> map_of (files w) p = None
               \<longrightarrow> map_of (files (snd (process_pdf E self c n w))) p = None)
            \<and> (fst (load_from_cache ?cp w) = None \<and> write_fault w ?tp = WriteOk
               \<longrightarrow> map_of (files (snd (process_pdf E self c n w))) ?tp = None)"
    if u: "unlink_fault w ?tp = None"
  proof (cases "fst (load_from_cache ?cp w)")
    case None
    show ?thesis
      using assms u temp_ne_cache [of E self w E self c n]
      by (auto simp: process_pdf_miss_files [OF None] Let_def split: wfault.splits)
  next
    case (Some ds)
    show ?thesis
      using Some by (simp add: process_pdf_hit_files [OF Some])
  qed
  have B: "map_of (files (snd (process_pdf E self c n w))) ?tp = Some (Binary c)
           \<and> last (log (snd (process_pdf E self c n w)))
               = (WARNING, msg_temp_cleanup_failed @ path_str ?tp @ '': '' @ str_exn e)"
    if u: "unlink_fault w ?tp = Some e" and m: "fst (load_from_cache ?cp w) = None"
      and ok: "write_fault w ?tp = WriteOk" for e
  proof -
    obtain wx where wx: "snd (process_pdf E self c n w) = cleanup_temp_file ?tp wx"
      "map_of (files wx) ?tp = Some (Binary c)" "unlink_fault wx = unlink_fault w"
      using process_pdf_miss_written [OF m ok] by blast
    have "log (cleanup_temp_file ?tp wx)
        = log wx @ [(WARNING, msg_temp_cleanup_failed @ path_str ?tp @ '': '' @ str_exn e)]"
      using wx u by (intro cleanup_temp_file_failure_logged) simp_all
    then have l: "last (log (snd (process_pdf E self c n w)))
        = (WARNING, msg_temp_cleanup_failed @ path_str ?tp @ '': '' @ str_exn e)"
      using wx(1) by simp
    have "map_of (files (snd (process_pdf E self c n w))) ?tp = Some (Binary c)"
      using u ok by (simp add: process_pdf_miss_files [OF m] Let_def)
    then show ?thesis using l by simp
  qed
  show ?thesis using A B by blast
qed

text \<open>
  The claim as stated fails: where the scratch file cannot be deleted, the call returns
  its chunks and the scratch file, absent before, is on disk afterwards.
\<close>

theorem scratch_file_left_behind:
  "fst (process_pdf example_env (init ''.cache'' 4) ''%PDFhello'' ''a.pdf'' locked_world)
     = Inr [example_doc]
   \<and> map_of (files locked_world) (''temp'', ''temp_a.pdf'') = None
   \<and> map_of (files (snd (process_pdf example_env (init ''.cache'' 4) ''%PDFhello'' ''a.pdf''
          locked_world))) (''temp'', ''temp_a.pdf'')
       = Some (Binary ''%PDFhello'')"
  by (simp add: run_defs locked_world_def example_doc_def)

theorem scratch_file_removed_witness:
  "write_fault example_world
       (next_temp_path example_env (init ''.cache'' 4) ''.pdf'' example_world) = WriteOk
   \<and> unlink_fault example_world
       (next_temp_path example_env (init ''.cache'' 4) ''.pdf'' example_world) = None
   \<and> fst (load_from_cache
         (get_cache_path example_env (init ''.cache'' 4) ''%PDFhello'' ''a.pdf'') example_world)
       = None
   \<and> next_temp_path example_env (init ''.cache'' 4) ''.pdf'' example_world
       = (''temp'', ''temp_a.pdf'')
   \<and> (''temp'', ''temp_a.pdf'')
       \<noteq> get_cache_path example_env (init ''.cache'' 4) ''%PDFhello'' ''a.pdf''
   \<and> map_of (files example_world) (''temp'', ''temp_a.pdf'') = None
   \<and> map_of (files (snd (process_pdf example_env (init ''.cache'' 4) ''%PDFhello'' ''a.pdf''
          example_world))) (''temp'', ''temp_a.pdf'') = None
   \<and> fst (process_pdf example_env (init ''.cache'' 4) ''junk'' ''a.pdf'' example_world)
       = Inl (Exc (LibraryError ''PdfReadError'') ''invalid pdf header'')
   \<and> map_of (files (snd (process_pdf example_env (init ''.cache'' 4) ''junk'' ''a.pdf''
          example_world))) (''temp'', ''temp_a.pdf'') = None
   \<and> write_fault locked_world
       (next_temp_path example_env (init ''.cache'' 4) ''.pdf'' locked_world) = WriteOk
   \<and> unlink_fault locked_world
       (next_temp_path example_env (init ''.cache'' 4) ''.pdf'' locked_world)
       = Some (Exc OSError ''Permission denied'')
   \<and> fst (load_from_cache
         (get_cache_path example_env (init ''.cache'' 4) ''%PDFhello'' ''a.pdf'') locked_world)
       = None
   \<and> last (log (snd (process_pdf example_env (init ''.cache'' 4) ''%PDFhello'' ''a.pdf''
          locked_world)))
       = (WARNING, msg_temp_cleanup_failed @ ''temp/temp_a.pdf: Permission denied'')"
proof -
  have h: "unlink_fault example_world p = None" "write_fault example_world p = WriteOk"
    "next_temp_path example_env (init ''.cache'' 4) ''.pdf'' example_world
       = (''temp'', ''temp_a.pdf'')"
    "(''temp'', ''temp_a.pdf'')
       \<noteq> get_cache_path example_env (init ''.cache'' 4) ''%PDFhello'' ''a.pdf''"
    "map_of (files example_world) p = None" for p
    by (simp_all add: example_world_def next_temp_path_def example_env_def init_def
        get_cache_path_def)
  have k: "unlink_fault locked_world p = Some (Exc OSError ''Permission denied'')"
    "write_fault locked_world p = WriteOk"
    "next_temp_path example_env (init ''.cache'' 4) ''.pdf'' locked_world
       = (''temp'', ''temp_a.pdf'')" for p
    by (simp_all add: locked_world_def example_world_def next_temp_path_def example_env_def
        init_def)
  have m: "fst (load_from_cache
         (get_cache_path example_env (init ''.cache'' 4) c ''a.pdf'') example_world)
       = None" for c
    by (simp add: load_from_cache_result example_world_def)
  have m': "fst (load_from_cache
         (get_cache_path example_env (init ''.cache'' 4) ''%PDFhello'' ''a.pdf'') locked_world)
       = None"
    by (simp add: load_from_cache_result locked_world_def example_world_def
        get_cache_path_def example_env_def init_def)
  have j: "fst (process_pdf example_env (init ''.cache'' 4) ''junk'' ''a.pdf'' example_world)
       = Inl (Exc (LibraryError ''PdfReadError'') ''invalid pdf header'')"
    by (simp add: run_defs)
  show ?thesis
    using scratch_file_removed [of example_world example_env "init ''.cache'' 4"
        "''%PDFhello''" "''a.pdf''"]
      scratch_file_removed [of example_world example_env "init ''.cache'' 4"
        "''junk''" "''a.pdf''"]
      scratch_file_removed [of locked_world example_env "init ''.cache'' 4"
        "''%PDFhello''" "''a.pdf''"] h k m m' j
    by (simp add: path_str_def)
qed

subsection \<open>Failures of the cache\<close>

lemma load_from_cache_failure_logged:
  assumes "map_of (files w) p = Some x"
    and "read_fault w p \<noteq> None \<or> (\<forall>v. x = JsonText v \<longrightarrow> isl (documents_of_data v))"
  shows "\<exists>m. snd (load_from_cache p w)
           = log_msg WARNING (msg_cache_load_failed @ m)
               (trace (IoRead p) (trace (IoExists p) w))"
  using assms
  by (cases x; cases "read_fault w p")
    (auto simp: load_from_cache_def path_exists_def read_json_def trace_def Let_def
      split: sum.splits)

lemma load_from_cache_failure:
  assumes "map_of (files w) p = Some x"
    and "read_fault w p \<noteq> None \<or> (\<forall>v. x = JsonText v \<longrightarrow> isl (documents_of_data v))"
  shows "fst (load_from_cache p w) = None"
  using assms
  by (cases x; cases "read_fault w p") (auto simp: load_from_cache_result split: sum.splits)

lemma save_to_cache_failure_logged:
  assumes "write_fault w p = OpenFails e \<or> write_fault w p = FailsMidway e"
  shows "log (save_to_cache p ds w) = log w @ [(WARNING, msg_cache_save_failed @ str_exn e)]"
  using assms
  by (auto simp: save_to_cache_def write_file_def trace_def Let_def log_msg_def)

text \<open>The log only grows.\<close>

lemma log_log_msg: "log (log_msg lv m w) = log w @ [(lv, m)]"
  by (simp add: log_msg_def)

lemma create_temp_file_log: "log (snd (create_temp_file E self c s w)) = log w"
  by (simp add: create_temp_file_def write_file_def trace_def Let_def split: wfault.splits)

lemma loader_load_log: "log (snd (loader_load E p w)) = log w"
  by (simp add: loader_load_def trace_def Let_def split: option.splits content.splits)

lemma save_to_cache_log: "\<exists>rest. log (save_to_cache p ds w) = log w @ rest"
  by (simp add: save_to_cache_def write_file_def trace_def Let_def log_msg_def
      split: wfault.splits)

lemma cleanup_temp_file_log: "\<exists>rest. log (cleanup_temp_file p w) = log w @ rest"
  by (simp add: cleanup_temp_file_def path_exists_def unlink_def trace_def Let_def log_msg_def
      split: option.splits)

lemma parse_and_split_log: "\<exists>rest. log (snd (parse_and_split E cp tp w)) = log w @ rest"
proof -
  obtain r w1 where l: "loader_load E tp w = (r, w1)" by (cases "loader_load E tp w")
  have f: "log w1 = log w"
    using loader_load_log [of E tp w] l by simp
  show ?thesis
    using l f save_to_cache_log [of cp _ w1]
    by (auto simp: parse_and_split_def split: sum.splits)
qed

lemma parse_and_split_save_logged:
  assumes "fst (parse_and_split E cp tp w) = Inr ds" and "ds \<noteq> []"
    and "write_fault w cp = OpenFails e \<or> write_fault w cp = FailsMidway e"
  shows "log (snd (parse_and_split E cp tp w))
           = log w @ [(WARNING, msg_cache_save_failed @ str_exn e)]"
proof -
  obtain r w1 where l: "loader_load E tp w = (r, w1)" by (cases "loader_load E tp w")
  have f: "log w1 = log w" "write_fault w1 = write_fault w"
    using loader_load_log [of E tp w] loader_load_frame [where E = E and p = tp and w = w] l
    by simp_all
  have s: "log (save_to_cache cp ds w1) = log w1 @ [(WARNING, msg_cache_save_failed @ str_exn e)]"
    using assms(3) f by (intro save_to_cache_failure_logged) simp
  show ?thesis
    using l f s assms(1,2)
    by (auto simp: parse_and_split_def split: sum.splits)
qed

lemma process_pdf_miss_log:
  assumes "fst (load_from_cache (get_cache_path E self c n) w) = None"
  shows "\<exists>rest. log (snd (process_pdf E self c n w))
           = log (snd (load_from_cache (get_cache_path E self c n) w))
               @ (INFO, msg_processing @ n) # rest"
proof -
  let ?cp = "get_cache_path E self c n"
  let ?w1 = "log_msg INFO (msg_processing @ n) (snd (load_from_cache ?cp w))"
  let ?cr = "create_temp_file E self c ''.pdf'' ?w1"
  have l1: "log (snd ?cr) = log (snd (load_from_cache ?cp w)) @ [(INFO, msg_processing @ n)]"
    by (simp add: create_temp_file_log log_log_msg)
  show ?thesis
  proof (cases "fst ?cr")
    case (Inl e)
    then show ?thesis
      by (simp add: process_pdf_miss [OF assms] Let_def l1 log_log_msg)
  next
    case (Inr tp)
    let ?ps = "parse_and_split E ?cp tp (snd ?cr)"
    let ?wx = "case fst ?ps of
                 Inl e \<Rightarrow> log_msg ERROR (msg_pdf_failed @ str_exn e) (snd ?ps)
               | Inr ds \<Rightarrow> snd ?ps"
    obtain r1 where r1: "log (snd ?ps) = log (snd ?cr) @ r1"
      using parse_and_split_log by blast
    then obtain r2 where r2: "log ?wx = log (snd ?cr) @ r2"
      by (cases "fst ?ps") (simp_all add: log_log_msg)
    obtain r3 where r3: "log (cleanup_temp_file tp ?wx) = log ?wx @ r3"
      using cleanup_temp_file_log by blast
    have "snd (process_pdf E self c n w) = cleanup_temp_file tp ?wx"
      by (simp add: process_pdf_miss [OF assms] Let_def Inr)
    then show ?thesis
      using r2 r3 l1 by simp
  qed
qed

lemma process_pdf_save_failure_logged:
  assumes "fst (load_from_cache (get_cache_path E self c n) w) = None"
    and "write_fault w (get_cache_path E self c n) = OpenFails e
         \<or> write_fault w (get_cache_path E self c n) = FailsMidway e"
    and "fst (process_pdf E self c n w) = Inr ds" and "ds \<noteq> []"
  shows "(WARNING, msg_cache_save_failed @ str_exn e) \<in> set (log (snd (process_pdf E self c n w)))"
proof -
  let ?cp = "get_cache_path E self c n"
  let ?w1 = "log_msg INFO (msg_processing @ n) (snd (load_from_cache ?cp w))"
  let ?cr = "create_temp_file E self c ''.pdf'' ?w1"
  have wf: "write_fault (snd ?cr) = write_fault w"
    by (simp add: frame)
  show ?thesis
  proof (cases "fst ?cr")
    case (Inl e')
    then show ?thesis
      using assms(3) by (simp add: process_pdf_miss [OF assms(1)] Let_def)
  next
    case (Inr tp)
    let ?ps = "parse_and_split E ?cp tp (snd ?cr)"
    have pp: "process_pdf E self c n w =
        (fst ?ps, cleanup_temp_file tp
           (case fst ?ps of
              Inl e \<Rightarrow> log_msg ERROR (msg_pdf_failed @ str_exn e) (snd ?ps)
            | Inr ds \<Rightarrow> snd ?ps))"
      by (simp add: process_pdf_miss [OF assms(1)] Let_def Inr)
    have r: "fst ?ps = Inr ds" using assms(3) pp by simp
    have "log (snd ?ps) = log (snd ?cr) @ [(WARNING, msg_cache_save_failed @ str_exn e)]"
      using r assms(4) assms(2) wf by (intro parse_and_split_save_logged) simp_all
    moreover obtain r3 where "log (cleanup_temp_file tp (snd ?ps)) = log (snd ?ps) @ r3"
      using cleanup_temp_file_log by blast
    ultimately show ?thesis
      by (simp add: pp r)
  qed
qed

text \<open>
  Claim C5 (cache errors). A cache file that cannot be read, or whose content does not
  deserialise into documents, is a cache miss: \<open>_load_from_cache\<close> returns \<open>None\<close>, and
  the log of the \<open>_process_pdf\<close> call continues with the warning of the failed load and
  then with the processing of the file. On every cache miss \<open>_process_pdf\<close> parses and
  splits: it returns what the splitter makes of the parser's pages (or the exception of
  the scratch file, of the parser or of the splitter), and the parser has been invoked
  once the scratch file was written. A failing write of the cache record is logged as a
  warning in the log of the call that had a non-empty chunk list to save, and whether and
  how that write fails does not change what \<open>_process_pdf\<close> returns or raises.
\<close>

theorem cache_failures_swallowed:
  "(map_of (files w) (get_cache_path E self c n) = Some x
      \<and> (read_fault w (get_cache_path E self c n) \<noteq> None
          \<or> (\<forall>v. x = JsonText v \<longrightarrow> isl (documents_of_data v)))
    \<longrightarrow> fst (load_from_cache (get_cache_path E self c n) w) = None
        \<and> (\<exists>m rest. log (snd (process_pdf E self c n w))
              = log w @ (WARNING, msg_cache_load_failed @ m)
                  # (INFO, msg_processing @ n) # rest))
   \<and> (fst (load_from_cache (get_cache_path E self c n) w) = None
      \<longrightarrow> fst (process_pdf E self c n w) =
            (let tp = next_temp_path E self ''.pdf'' w in
             case write_fault w tp of
               WriteOk \<Rightarrow>
                 (case read_fault w tp of
                    Some e \<Rightarrow> Inl e
                  | None \<Rightarrow>
                      (case pdf_load E (path_str tp) c of
                         Inl e \<Rightarrow> Inl e
                       | Inr docs \<Rightarrow> split_documents E docs))
             | OpenFails e \<Rightarrow> Inl e
             | FailsMidway e \<Rightarrow> Inl e)
          \<and> parser_calls (snd (process_pdf E self c n w)) =
              (if write_fault w (next_temp_path E self ''.pdf'' w) = WriteOk
               then Suc (parser_calls w) else parser_calls w))
   \<and> (fst (load_from_cache (get_cache_path E self c n) w) = None
        \<and> (write_fault w (get_cache_path E self c n) = OpenFails e
            \<or> write_fault w (get_cache_path E self c n) = FailsMidway e)
        \<and> fst (process_pdf E self c n w) = Inr ds \<and> ds \<noteq> []
      \<longrightarrow> (WARNING, msg_cache_save_failed @ str_exn e)
            \<in> set (log (snd (process_pdf E self c n w))))
   \<and> fst (process_pdf E self c n
          (w\<lparr>write_fault := (write_fault w)(get_cache_path E self c n := f)\<rparr>))
       = fst (process_pdf E self c n w)"
proof -
  let ?cp = "get_cache_path E self c n"
  let ?tp = "next_temp_path E self ''.pdf'' w"
  have ne: "?tp \<noteq> ?cp" by (rule temp_ne_cache)
  have A: "fst (load_from_cache ?cp w) = None
        \<and> (\<exists>m rest. log (snd (process_pdf E self c n w))
              = log w @ (WARNING, msg_cache_load_failed @ m) # (INFO, msg_processing @ n) # rest)"
    if x: "map_of (files w) ?cp = Some x"
      and bad: "read_fault w ?cp \<noteq> None \<or> (\<forall>v. x = JsonText v \<longrightarrow> isl (documents_of_data v))"
  proof -
    have m: "fst (load_from_cache ?cp w) = None"
      using x bad by (rule load_from_cache_failure)
    obtain msg where "snd (load_from_cache ?cp w)
        = log_msg WARNING (msg_cache_load_failed @ msg)
            (trace (IoRead ?cp) (trace (IoExists ?cp) w))"
      using load_from_cache_failure_logged [OF x bad] by blast
    then have l: "log (snd (load_from_cache ?cp w)) = log w @ [(WARNING, msg_cache_load_failed @ msg)]"
      by (simp add: log_msg_def trace_def)
    obtain rest where "log (snd (process_pdf E self c n w))
           = log (snd (load_from_cache ?cp w)) @ (INFO, msg_processing @ n) # rest"
      using process_pdf_miss_log [OF m] by blast
    then have "log (snd (process_pdf E self c n w))
        = log w @ (WARNING, msg_cache_load_failed @ msg) # (INFO, msg_processing @ n) # rest"
      using l by simp
    then show ?thesis using m by blast
  qed
  note B = process_pdf_miss_result process_pdf_miss_parser_calls
  note C = process_pdf_save_failure_logged
  let ?w'' = "w\<lparr>write_fault := (write_fault w)(?cp := f)\<rparr>"
  have same: "fst (load_from_cache ?cp ?w'') = fst (load_from_cache ?cp w)"
    by (rule load_from_cache_cong) simp_all
  have D: "fst (process_pdf E self c n ?w'') = fst (process_pdf E self c n w)"
  proof (cases "fst (load_from_cache ?cp w)")
    case None
    then have None': "fst (load_from_cache ?cp ?w'') = None" using same by simp
    have tp: "next_temp_path E self ''.pdf'' ?w'' = ?tp"
      by (simp add: next_temp_path_def)
    show ?thesis
      using ne
      by (simp add: process_pdf_miss_result [OF None] process_pdf_miss_result [OF None']
          tp Let_def cong: wfault.case_cong option.case_cong)
  next
    case (Some ds')
    then have Some': "fst (load_from_cache ?cp ?w'') = Some ds'" using same by simp
    show ?thesis
      by (simp add: process_pdf_hit [OF Some] process_pdf_hit [OF Some'])
  qed
  show ?thesis
    using A B [of E self c n w] C [of E self c n w e ds] D by blast
qed


theorem cache_failures_swallowed_witness:
  "map_of (files corrupt_world)
       (get_cache_path example_env (init ''.cache'' 4) ''%PDFhello'' ''a.pdf'') = Some Truncated
   \<and> fst (load_from_cache
         (get_cache_path example_env (init ''.cache'' 4) ''%PDFhello'' ''a.pdf'') corrupt_world)
       = None
   \<and> log (snd (process_pdf example_env (init ''.cache'' 4) ''%PDFhello'' ''a.pdf''
         corrupt_world))
       = [(WARNING, msg_cache_load_failed @ ''Expecting value''),
          (INFO, msg_processing @ ''a.pdf'')]
   \<and> fst (process_pdf example_env (init ''.cache'' 4) ''%PDFhello'' ''a.pdf'' corrupt_world)
       = Inr [example_doc]
   \<and> parser_calls (snd (process_pdf example_env (init ''.cache'' 4) ''%PDFhello'' ''a.pdf''
         corrupt_world)) = 1
   \<and> fst (load_from_cache
         (get_cache_path example_env (init ''.cache'' 4) ''%PDFhello'' ''a.pdf'') readonly_world)
       = None
   \<and> write_fault readonly_world
        (get_cache_path example_env (init ''.cache'' 4) ''%PDFhello'' ''a.pdf'')
       = OpenFails (Exc OSError ''Read-only file system'')
   \<and> fst (process_pdf example_env (init ''.cache'' 4) ''%PDFhello'' ''a.pdf'' readonly_world)
       = Inr [example_doc]
   \<and> (WARNING, msg_cache_save_failed @ ''Read-only file system'')
       \<in> set (log (snd (process_pdf example_env (init ''.cache'' 4) ''%PDFhello'' ''a.pdf''
                readonly_world)))
   \<and> fst (process_pdf example_env (init ''.cache'' 4) ''%PDFhello'' ''a.pdf''
         (example_world\<lparr>write_fault := (write_fault example_world)
            (get_cache_path example_env (init ''.cache'' 4) ''%PDFhello'' ''a.pdf''
               := OpenFails (Exc OSError ''Read-only file system''))\<rparr>))
       = Inr [example_doc]"
proof -
  let ?cp = "get_cache_path example_env (init ''.cache'' 4) ''%PDFhello'' ''a.pdf''"
  have cp: "?cp = (''.cache'', ''%PDFhelloa.pdf.json'')"
    by (simp add: get_cache_path_def example_env_def init_def)
  have x: "map_of (files corrupt_world) ?cp = Some Truncated"
    by (simp add: cp corrupt_world_def example_world_def)
  have wf: "write_fault readonly_world ?cp = OpenFails (Exc OSError ''Read-only file system'')"
    by (simp add: cp readonly_world_def example_world_def)
  have m: "fst (load_from_cache ?cp readonly_world) = None"
    by (simp add: load_from_cache_result readonly_world_def example_world_def)
  have l: "log (snd (process_pdf example_env (init ''.cache'' 4) ''%PDFhello'' ''a.pdf''
         corrupt_world))
       = [(WARNING, msg_cache_load_failed @ ''Expecting value''),
          (INFO, msg_processing @ ''a.pdf'')]"
    by (simp add: run_defs corrupt_world_def)
  have r: "fst (process_pdf example_env (init ''.cache'' 4) ''%PDFhello'' ''a.pdf''
        readonly_world) = Inr [example_doc]"
    "fst (process_pdf example_env (init ''.cache'' 4) ''%PDFhello'' ''a.pdf''
        example_world) = Inr [example_doc]"
    "fst (process_pdf example_env (init ''.cache'' 4) ''%PDFhello'' ''a.pdf''
        corrupt_world) = Inr [example_doc]"
    by (simp_all add: run_defs readonly_world_def corrupt_world_def example_doc_def)
  have wt: "write_fault corrupt_world p = WriteOk" for p
    by (simp add: corrupt_world_def example_world_def)
  have pc: "parser_calls corrupt_world = 0"
    by (simp add: corrupt_world_def example_world_def)
  show ?thesis
    using cache_failures_swallowed [where w = corrupt_world and E = example_env
        and self = "init ''.cache'' 4" and c = "''%PDFhello''" and n = "''a.pdf''"
        and x = Truncated and e = "Exc OSError ''Read-only file system''"
        and ds = "[example_doc]" and f = WriteOk]
      cache_failures_swallowed [where w = readonly_world and E = example_env
        and self = "init ''.cache'' 4" and c = "''%PDFhello''" and n = "''a.pdf''"
        and x = Truncated and e = "Exc OSError ''Read-only file system''"
        and ds = "[example_doc]" and f = WriteOk]
      cache_failures_swallowed [where w = example_world and E = example_env
        and self = "init ''.cache'' 4" and c = "''%PDFhello''" and n = "''a.pdf''"
        and x = Truncated and e = "Exc OSError ''Read-only file system''"
        and ds = "[example_doc]"
        and f = "OpenFails (Exc OSError ''Read-only file system'')"]
      x wf m l r wt pc
    by simp
qed

subsection \<open>Empty results are not cached\<close>

text \<open>
  Claim C10 (no empty cache record). On a cache miss, when the splitter returns the empty
  list the file at the cache path is left as it was, so the same input misses the cache
  again and, once its scratch file is written, the parser is invoked again. And whenever
  the cache record loads after a call that had missed, it holds a non-empty chunk list, the
  one the call returned.
\<close>

theorem empty_split_not_cached:
  assumes "fst (load_from_cache (get_cache_path E self c n) w) = None"
  shows "(fst (process_pdf E self c n w) = Inr [] \<longrightarrow>
            map_of (files (snd (process_pdf E self c n w))) (get_cache_path E self c n)
              = map_of (files w) (get_cache_path E self c n)
            \<and> fst (load_from_cache (get_cache_path E self c n)
                  (snd (process_pdf E self c n w))) = None
            \<and> (write_fault w (next_temp_path E self ''.pdf'' (snd (process_pdf E self c n w)))
                  = WriteOk \<longrightarrow>
                parser_calls (snd (process_pdf E self c n (snd (process_pdf E self c n w))))
                  = Suc (parser_calls (snd (process_pdf E self c n w)))))
         \<and> (\<forall>ds. fst (load_from_cache (get_cache_path E self c n)
                      (snd (process_pdf E self c n w))) = Some ds
                \<longrightarrow> ds \<noteq> [] \<and> fst (process_pdf E self c n w) = Inr ds)"
proof -
  let ?cp = "get_cache_path E self c n"
  let ?w1 = "snd (process_pdf E self c n w)"
  have ne: "next_temp_path E self ''.pdf'' w \<noteq> ?cp" by (rule temp_ne_cache)
  have fl: "read_fault ?w1 = read_fault w" "write_fault ?w1 = write_fault w"
    using process_pdf_faults [of E self c n w] by simp_all
  have cpf: "map_of (files ?w1) ?cp =
      (case fst (process_pdf E self c n w) of
         Inr ds \<Rightarrow>
           (if ds \<noteq> [] then
              (case write_fault w ?cp of
                 WriteOk \<Rightarrow> Some (JsonText (JArr (map dict ds)))
               | OpenFails e \<Rightarrow> map_of (files w) ?cp
               | FailsMidway e \<Rightarrow> Some Truncated)
            else map_of (files w) ?cp)
       | Inl e \<Rightarrow> map_of (files w) ?cp)"
    using process_pdf_miss_files [OF assms, of ?cp] ne by (simp add: Let_def)
  have same: "fst (load_from_cache ?cp ?w1) = None"
    if "map_of (files ?w1) ?cp = map_of (files w) ?cp"
    using load_from_cache_cong [of ?w1 ?cp w] that fl assms by simp
  have A: "map_of (files ?w1) ?cp = map_of (files w) ?cp
            \<and> fst (load_from_cache ?cp ?w1) = None
            \<and> (write_fault w (next_temp_path E self ''.pdf'' ?w1) = WriteOk \<longrightarrow>
                parser_calls (snd (process_pdf E self c n ?w1)) = Suc (parser_calls ?w1))"
    if e: "fst (process_pdf E self c n w) = Inr []"
  proof -
    have u: "map_of (files ?w1) ?cp = map_of (files w) ?cp"
      using cpf e by simp
    have m: "fst (load_from_cache ?cp ?w1) = None"
      using u by (rule same)
    show ?thesis
      using u m process_pdf_miss_parser_calls [OF m] fl by simp
  qed
  have B: "ds \<noteq> [] \<and> fst (process_pdf E self c n w) = Inr ds"
    if h: "fst (load_from_cache ?cp ?w1) = Some ds" for ds
  proof (cases "fst (process_pdf E self c n w)")
    case (Inl e)
    then have "map_of (files ?w1) ?cp = map_of (files w) ?cp" using cpf by simp
    then show ?thesis using same h by simp
  next
    case (Inr ds')
    show ?thesis
    proof (cases "ds' = []")
      case True
      then have "map_of (files ?w1) ?cp = map_of (files w) ?cp" using cpf Inr by simp
      then show ?thesis using same h by simp
    next
      case False
      show ?thesis
      proof (cases "write_fault w ?cp")
        case WriteOk
        then have f: "map_of (files ?w1) ?cp = Some (JsonText (JArr (map dict ds')))"
          using cpf Inr False by simp
        have "fst (load_from_cache ?cp ?w1) =
            (case read_fault w ?cp of Some e \<Rightarrow> None | None \<Rightarrow> Some ds')"
          using f fl
          by (simp add: load_from_cache_result documents_of_data_def build_documents_dict
              split: option.splits)
        then have "ds = ds'" using h by (simp split: option.splits)
        then show ?thesis using False Inr by simp
      next
        case (OpenFails e)
        then have "map_of (files ?w1) ?cp = map_of (files w) ?cp"
          using cpf Inr False by simp
        then show ?thesis using same h by simp
      next
        case (FailsMidway e)
        then have "map_of (files ?w1) ?cp = Some Truncated"
          using cpf Inr False by simp
        then show ?thesis using h by (simp add: load_from_cache_result split: option.splits)
      qed
    qed
  qed
  show ?thesis using A B by blast
qed


theorem empty_split_not_cached_witness:
  "fst (load_from_cache (get_cache_path example_env (init ''.cache'' 4) ''%PDF'' ''a.pdf'')
         example_world) = None
   \<and> fst (process_pdf example_env (init ''.cache'' 4) ''%PDF'' ''a.pdf'' example_world) = Inr []
   \<and> map_of (files (snd (process_pdf example_env (init ''.cache'' 4) ''%PDF'' ''a.pdf''
          example_world)))
        (get_cache_path example_env (init ''.cache'' 4) ''%PDF'' ''a.pdf'') = None
   \<and> fst (load_from_cache (get_cache_path example_env (init ''.cache'' 4) ''%PDF'' ''a.pdf'')
         (snd (process_pdf example_env (init ''.cache'' 4) ''%PDF'' ''a.pdf'' example_world)))
       = None
   \<and> write_fault example_world
        (next_temp_path example_env (init ''.cache'' 4) ''.pdf''
          (snd (process_pdf example_env (init ''.cache'' 4) ''%PDF'' ''a.pdf'' example_world)))
       = WriteOk
   \<and> parser_calls (snd (process_pdf example_env (init ''.cache'' 4) ''%PDF'' ''a.pdf''
         (snd (process_pdf example_env (init ''.cache'' 4) ''%PDF'' ''a.pdf'' example_world))))
       = Suc (parser_calls
           (snd (process_pdf example_env (init ''.cache'' 4) ''%PDF'' ''a.pdf'' example_world)))
   \<and> fst (load_from_cache
         (get_cache_path example_env (init ''.cache'' 4) ''%PDFhello'' ''a.pdf'') example_world)
       = None
   \<and> fst (load_from_cache
         (get_cache_path example_env (init ''.cache'' 4) ''%PDFhello'' ''a.pdf'')
         (snd (process_pdf example_env (init ''.cache'' 4) ''%PDFhello'' ''a.pdf''
            example_world)))
       = Some [example_doc]
   \<and> [example_doc] \<noteq> []
   \<and> fst (process_pdf example_env (init ''.cache'' 4) ''%PDFhello'' ''a.pdf'' example_world)
       = Inr [example_doc]"
proof -
  have m: "fst (load_from_cache (get_cache_path example_env (init ''.cache'' 4) c ''a.pdf'')
         example_world) = None" for c
    by (simp add: load_from_cache_result example_world_def)
  have e: "fst (process_pdf example_env (init ''.cache'' 4) ''%PDF'' ''a.pdf'' example_world)
      = Inr []"
    by (simp add: run_defs)
  have wf: "write_fault example_world p = WriteOk" for p
    by (simp add: example_world_def)
  have h: "fst (load_from_cache
         (get_cache_path example_env (init ''.cache'' 4) ''%PDFhello'' ''a.pdf'')
         (snd (process_pdf example_env (init ''.cache'' 4) ''%PDFhello'' ''a.pdf''
            example_world)))
       = Some [example_doc]"
    by (simp add: run_defs example_doc_def)
  have n: "map_of (files example_world) p = None" for p
    by (simp add: example_world_def)
  show ?thesis
    using empty_split_not_cached [OF m [of "''%PDF''"]]
      empty_split_not_cached [OF m [of "''%PDFhello''"]] m e wf h n
    by simp
qed

end
